theory Spec2Isabelle
  imports Complex_Main
begin

section \<open>Cursor trail: particle pool, style renderer, recording controller\<close>

text \<open>
  The program is a single React component \<open>App\<close>. Its \<open>useState\<close> cells and \<open>useRef\<close>
  boxes are the fields of one record; every event handler and effect is a function from
  that record to the updated record. A state setter takes effect at once: each handler
  of the panel and of the keyboard is taken to run after the component has rendered the
  previous handler's updates. The functions \<open>startRecording\<close> and \<open>stopRecording\<close> are
  closures made anew by every render whose \<open>recordingState\<close> differs from the one before,
  and they test the \<open>recordingState\<close> of the render that made them, not the current one: a
  control object the host has kept holds the closures of the render that built it.
  JavaScript numbers are modelled as real numbers (no rounding, no \<open>NaN\<close>). The
  component is followed from mounting on; unmounting, with its cleanup of the recorder
  and the stream, is not part of the model, and neither is the resizing of the canvas.
\<close>

subsection \<open>Constants\<close>

definition MAX_POINTS :: nat where
  "MAX_POINTS = 48"

definition STORAGE_KEY :: string where
  "STORAGE_KEY = ''cursor-trail-settings-v1''"

subsection \<open>Trail points and the canvas\<close>

text \<open>The fields \<open>x\<close> and \<open>y\<close> of a point are named \<open>px\<close> and \<open>py\<close> here.\<close>

record point =
  px :: real
  py :: real
  life :: real
  seed :: real

record options =
  style :: string
  color :: string
  size :: real

text \<open>
  \<open>hexToRgba(hex, alpha)\<close> builds the CSS text of a colour; the text itself is not
  computed, the colour is kept as the pair it is built from.
\<close>

datatype colour = Rgba string real | Hex string

text \<open>
  The calls made on the 2D context, in the order they are made. Creating a radial
  gradient, adding its colour stops and assigning it to \<open>fillStyle\<close> is one call here,
  and \<open>clearRect\<close> always covers the whole canvas.
\<close>

datatype canvas_call =
    Save
  | Restore
  | ClearRect
  | FillStyle colour
  | FillRadialGradient real real real real real real "(real \<times> colour) list"
  | StrokeStyle colour
  | LineWidth real
  | GlobalAlpha real
  | BeginPath
  | MoveTo real real
  | LineTo real real
  | Arc real real real real real
  | Ellipse real real real real real real real
  | ClosePath
  | Fill
  | Stroke

text \<open>The loop \<open>for (let i = 0; i < arms; i++)\<close> of the sparkle style.\<close>

function sparkle_arms :: "point \<Rightarrow> real \<Rightarrow> nat \<Rightarrow> nat \<Rightarrow> canvas_call list" where
  "sparkle_arms point radius arms i =
     (if i < arms then
        (let angle = (pi / 2) * real i + seed point;
             length = radius * 0.9
         in [BeginPath,
             MoveTo (px point) (py point),
             LineTo (px point + cos angle * length) (py point + sin angle * length),
             Stroke] @ sparkle_arms point radius arms (i + 1))
      else [])"
  by pat_completeness auto
termination
  by (relation "measure (\<lambda>(point, radius, arms, i). arms - i)") auto

text \<open>The loop \<open>for (let i = 0; i < spikes; i++)\<close> of the star style.\<close>

function star_spikes :: "point \<Rightarrow> real \<Rightarrow> nat \<Rightarrow> nat \<Rightarrow> canvas_call list" where
  "star_spikes point radius spikes i =
     (if i < spikes then
        (let outerAngle = (pi * 2 * real i) / real spikes - pi / 2;
             innerAngle = outerAngle + pi / real spikes;
             outerX = px point + cos outerAngle * radius;
             outerY = py point + sin outerAngle * radius;
             innerX = px point + cos innerAngle * (radius * 0.45);
             innerY = py point + sin innerAngle * (radius * 0.45)
         in [if i = 0 then MoveTo outerX outerY else LineTo outerX outerY,
             LineTo innerX innerY] @ star_spikes point radius spikes (i + 1))
      else [])"
  by pat_completeness auto
termination
  by (relation "measure (\<lambda>(point, radius, spikes, i). spikes - i)") auto

definition drawPoint :: "point \<Rightarrow> options \<Rightarrow> canvas_call list" where
  "drawPoint point opts =
     (let alpha = max (life point) 0;
          radius = size opts * alpha
      in [Save] @
         (if style opts = ''gradient'' then
            [FillRadialGradient (px point) (py point) 0 (px point) (py point) radius
               [(0, Rgba (color opts) alpha), (1, Rgba (color opts) 0)],
             BeginPath,
             Arc (px point) (py point) radius 0 (pi * 2),
             Fill]
          else if style opts = ''sparkle'' then
            [StrokeStyle (Rgba (color opts) alpha),
             LineWidth (max 1 (radius / 6))] @
            sparkle_arms point radius 4 0
          else if style opts = ''brush'' then
            [GlobalAlpha (alpha * 0.35),
             FillStyle (Hex (color opts)),
             BeginPath,
             Ellipse (px point) (py point) radius (radius * 0.6) (seed point) 0 (pi * 2),
             Fill]
          else if style opts = ''star'' then
            [FillStyle (Rgba (color opts) alpha),
             BeginPath] @
            star_spikes point radius 5 0 @
            [ClosePath,
             Fill]
          else if style opts = ''glow'' then
            [FillRadialGradient (px point) (py point) 0 (px point) (py point) (radius * 1.6)
               [(0, Rgba (color opts) (alpha * 0.9)),
                (0.5, Rgba (color opts) (alpha * 0.45)),
                (1, Rgba (color opts) 0)],
             BeginPath,
             Arc (px point) (py point) (radius * 1.6) 0 (pi * 2),
             Fill]
          else []) @
         [Restore])"


subsection \<open>The component's state\<close>

text \<open>
  A blob is the list of its bytes, an object URL is identified with the blob it names,
  and a capture stream or a recorder is identified by a number: the \<open>n\<close>-th stream the
  browser hands out, and the recorder constructed on it.
\<close>

type_synonym blob = "nat list"

datatype json =
    JNull
  | JBool bool
  | JNum real
  | JStr string
  | JArr "json list"
  | JObj "(string \<times> json) list"

text \<open>
  What \<open>localStorage\<close> holds under a key: a text that \<open>JSON.parse\<close> accepts, given by
  the value it parses to, or a text that \<open>JSON.parse\<close> rejects. \<open>JSON.stringify\<close> writes
  a text of the first kind that parses back to the value written.
\<close>

datatype stored_text = Document json | Invalid string

text \<open>
  A control surface object: the identity the browser tells it by, and the
  \<open>recordingState\<close> of the render that built it, which is the one its \<open>startRecording\<close>
  and \<open>stopRecording\<close> test.
\<close>

record control_object =
  identity :: nat
  rendered :: string

record app =
  \<comment> \<open>\<open>useState\<close>\<close>
  isActive :: bool
  trailStyle :: string
  trailColor :: string
  trailSize :: real
  fadeSpeed :: real
  activePresetId :: "string option"
  settingsHydrated :: bool
  obsReady :: bool
  recordingState :: string
  recordingUrl :: "blob option"
  recordingError :: string
  \<comment> \<open>\<open>useRef\<close>\<close>
  pointsRef :: "point list"
  mediaRecorderRef :: "nat option"
  chunksRef :: "blob list"
  screenStreamRef :: "nat option"
  \<comment> \<open>the object the cleanup of the control surface effect holds\<close>
  controlsCleanup :: "control_object option"
  \<comment> \<open>the canvas: the calls of the last frame\<close>
  canvas :: "canvas_call list"
  \<comment> \<open>the browser\<close>
  getDisplayMedia :: bool
  pendingCaptures :: nat
  nextStream :: nat
  liveStreams :: "nat list"
  activeRecorders :: "nat list"
  stoppingRecorders :: "nat list"
  localStorage :: "string \<rightharpoonup> stored_text"
  cursorTrailControls :: "control_object option"
  published :: "control_object list"
  nextObject :: nat
  obsstudio :: bool

text \<open>
  Mounting the component: every state cell and ref takes its initial value; the browser
  is as it was.
\<close>

definition mount :: "app \<Rightarrow> app" where
  "mount a = a\<lparr>isActive := True,
               trailStyle := ''gradient'',
               trailColor := ''#8B5CF6'',
               trailSize := 22,
               fadeSpeed := 55,
               activePresetId := None,
               settingsHydrated := False,
               obsReady := False,
               recordingState := ''idle'',
               recordingUrl := None,
               recordingError := [],
               pointsRef := [],
               mediaRecorderRef := None,
               chunksRef := [],
               screenStreamRef := None,
               controlsCleanup := None,
               canvas := []\<rparr>"

text \<open>A browser with nothing stored, nothing captured and no control surface installed.\<close>

definition browser :: "bool \<Rightarrow> app" where
  "browser capture =
     \<lparr>isActive = False, trailStyle = [], trailColor = [], trailSize = 0, fadeSpeed = 0,
      activePresetId = None, settingsHydrated = False, obsReady = False,
      recordingState = [], recordingUrl = None, recordingError = [],
      pointsRef = [], mediaRecorderRef = None, chunksRef = [], screenStreamRef = None,
      controlsCleanup = None, canvas = [],
      getDisplayMedia = capture, pendingCaptures = 0, nextStream = 0, liveStreams = [],
      activeRecorders = [], stoppingRecorders = [], localStorage = Map.empty,
      cursorTrailControls = None, published = [], nextObject = 0, obsstudio = False\<rparr>"

subsection \<open>Presets\<close>

record preset_config =
  pstyle :: string
  pcolor :: string
  psize :: real
  pfade :: real

record preset =
  pid :: string
  pname :: string
  shortcut :: string
  description :: string
  config :: preset_config

text \<open>The three entries of \<open>PRESET_COMBOS\<close>, named after their \<open>id\<close>.\<close>

definition tutorial_pop :: preset where
  "tutorial_pop =
     \<lparr>pid = ''tutorial-pop'', pname = ''Tutorial Pop'', shortcut = ''1'',
      description = ''Sparkle bursts that highlight quick steps.'',
      config = \<lparr>pstyle = ''sparkle'', pcolor = ''#F59E0B'', psize = 28, pfade = 70\<rparr>\<rparr>"

definition signature_cyan :: preset where
  "signature_cyan =
     \<lparr>pid = ''signature-cyan'', pname = ''Canva Glow'', shortcut = ''2'',
      description = ''Soft glow in Canva signature cyan.'',
      config = \<lparr>pstyle = ''glow'', pcolor = ''#00C4CC'', psize = 32, pfade = 55\<rparr>\<rparr>"

definition brush_studio :: preset where
  "brush_studio =
     \<lparr>pid = ''brush-studio'', pname = ''Brush Studio'', shortcut = ''3'',
      description = ''Organic brush strokes for live sketching.'',
      config = \<lparr>pstyle = ''brush'', pcolor = ''#8B5CF6'', psize = 36, pfade = 85\<rparr>\<rparr>"

definition PRESET_COMBOS :: "preset list" where
  "PRESET_COMBOS = [tutorial_pop, signature_cyan, brush_studio]"

text \<open>\<open>applyPreset(preset)\<close>; \<open>None\<close> is a falsy argument.\<close>

definition applyPreset :: "preset option \<Rightarrow> app \<Rightarrow> app" where
  "applyPreset preset a =
     (case preset of
        None \<Rightarrow> a
      | Some p \<Rightarrow> a\<lparr>trailStyle := pstyle (config p),
                     trailColor := pcolor (config p),
                     trailSize := psize (config p),
                     fadeSpeed := pfade (config p),
                     activePresetId := Some (pid p)\<rparr>)"

subsection \<open>The particle pool\<close>

record mouse_event =
  clientX :: real
  clientY :: real

text \<open>\<open>random\<close> is the value \<open>Math.random()\<close> returns at this call.\<close>

definition handleMouseMove :: "mouse_event \<Rightarrow> real \<Rightarrow> app \<Rightarrow> app" where
  "handleMouseMove event random a =
     (if \<not> isActive a then a
      else
        (let pushed = pointsRef a @
               [\<lparr>px = clientX event, py = clientY event, life = 1, seed = random * pi * 2\<rparr>]
         in if length pushed > MAX_POINTS then a\<lparr>pointsRef := tl pushed\<rparr>
            else a\<lparr>pointsRef := pushed\<rparr>))"

text \<open>
  The loop of \<open>render\<close> over \<open>pointsRef.current\<close>, with \<open>nextPoints\<close> and the canvas as
  they grow.
\<close>

fun render_points :: "app \<Rightarrow> point list \<Rightarrow> point list \<times> canvas_call list
    \<Rightarrow> point list \<times> canvas_call list" where
  "render_points a [] (nextPoints, ctx) = (nextPoints, ctx)"
| "render_points a (point # rest) (nextPoints, ctx) =
     (let nextLife = life point - fadeSpeed a / 1000
      in if nextLife \<le> 0 then render_points a rest (nextPoints, ctx)
         else
           (let updatedPoint = point\<lparr>life := nextLife\<rparr>
            in render_points a rest
                 (nextPoints @ [updatedPoint],
                  ctx @ drawPoint updatedPoint
                          \<lparr>style = trailStyle a, color = trailColor a, size = trailSize a\<rparr>)))"

text \<open>One frame: \<open>render\<close> runs once and re-arms itself for the next frame.\<close>

definition render :: "app \<Rightarrow> app" where
  "render a =
     (case render_points a (pointsRef a) ([], [ClearRect]) of
        (nextPoints, ctx) \<Rightarrow> a\<lparr>pointsRef := nextPoints, canvas := ctx\<rparr>)"

subsection \<open>Settings persistence\<close>

datatype type_error = TypeError

text \<open>
  The body of the \<open>try\<close> block once \<open>JSON.parse\<close> has returned. Reading a property of
  \<open>null\<close> throws, and \<open>parsed.isActive\<close> is the first read, so nothing has been set
  when it does; a property read of any other value returns the property or
  \<open>undefined\<close>. The list of a \<open>JObj\<close> holds the object's own properties.
\<close>

fun property :: "json \<Rightarrow> string \<Rightarrow> json option" where
  "property (JObj props) name = map_of props name"
| "property _ name = None"

text \<open>
  The value \<open>v\<close> when \<open>typeof v === 'boolean'\<close> (\<open>'string'\<close>, \<open>'number'\<close>) holds; \<open>None\<close> as
  an argument is \<open>undefined\<close>.
\<close>

fun boolean_of :: "json option \<Rightarrow> bool option" where
  "boolean_of (Some (JBool v)) = Some v"
| "boolean_of _ = None"

fun string_of :: "json option \<Rightarrow> string option" where
  "string_of (Some (JStr v)) = Some v"
| "string_of _ = None"

fun number_of :: "json option \<Rightarrow> real option" where
  "number_of (Some (JNum v)) = Some v"
| "number_of _ = None"

definition restore :: "json \<Rightarrow> app \<Rightarrow> type_error + app" where
  "restore parsed a =
     (if parsed = JNull then Inl TypeError
      else
        (let a1 = (case boolean_of (property parsed ''isActive'') of
                     Some v \<Rightarrow> a\<lparr>isActive := v\<rparr> | None \<Rightarrow> a);
             a2 = (case string_of (property parsed ''trailStyle'') of
                     Some v \<Rightarrow> a1\<lparr>trailStyle := v\<rparr> | None \<Rightarrow> a1);
             a3 = (case string_of (property parsed ''trailColor'') of
                     Some v \<Rightarrow> a2\<lparr>trailColor := v\<rparr> | None \<Rightarrow> a2);
             a4 = (case number_of (property parsed ''trailSize'') of
                     Some v \<Rightarrow> a3\<lparr>trailSize := v\<rparr> | None \<Rightarrow> a3);
             a5 = (case number_of (property parsed ''fadeSpeed'') of
                     Some v \<Rightarrow> a4\<lparr>fadeSpeed := v\<rparr> | None \<Rightarrow> a4);
             a6 = (case string_of (property parsed ''activePresetId'') of
                     Some v \<Rightarrow> a5\<lparr>activePresetId := Some v\<rparr> | None \<Rightarrow> a5)
         in Inr a6))"

text \<open>
  The effect that runs once after mounting. An empty text is falsy and is skipped; a
  text that does not parse, and a \<open>TypeError\<close>, end in the \<open>catch\<close> block, which only
  logs. The \<open>finally\<close> block runs in every case.
\<close>

definition loadSettings :: "app \<Rightarrow> app" where
  "loadSettings a =
     (let a' = (case localStorage a STORAGE_KEY of
                  None \<Rightarrow> a
                | Some (Invalid text) \<Rightarrow> a
                | Some (Document parsed) \<Rightarrow>
                    (case restore parsed a of Inl error \<Rightarrow> a | Inr restored \<Rightarrow> restored))
      in a'\<lparr>settingsHydrated := True\<rparr>)"

definition payload :: "app \<Rightarrow> json" where
  "payload a =
     JObj [(''isActive'', JBool (isActive a)),
           (''trailStyle'', JStr (trailStyle a)),
           (''trailColor'', JStr (trailColor a)),
           (''trailSize'', JNum (trailSize a)),
           (''fadeSpeed'', JNum (fadeSpeed a)),
           (''activePresetId'', (case activePresetId a of None \<Rightarrow> JNull | Some v \<Rightarrow> JStr v))]"

text \<open>The effect that runs after every change of a setting.\<close>

definition saveSettings :: "app \<Rightarrow> app" where
  "saveSettings a =
     (if \<not> settingsHydrated a then a
      else a\<lparr>localStorage := (localStorage a)(STORAGE_KEY \<mapsto> Document (payload a))\<rparr>)"

subsection \<open>The recording controller\<close>

text \<open>\<open>error?.message || fallback\<close>: a missing or empty message is falsy.\<close>

definition messageOr :: "string option \<Rightarrow> string \<Rightarrow> string" where
  "messageOr message fallback =
     (case message of None \<Rightarrow> fallback | Some text \<Rightarrow> if text = [] then fallback else text)"

text \<open>
  \<open>startRecording\<close> up to its \<open>await\<close>: the call of \<open>getDisplayMedia\<close> leaves a promise
  pending, and the function resumes when the browser settles it. The first argument is
  the \<open>recordingState\<close> of the render that made the closure.
\<close>

definition startRecording :: "string \<Rightarrow> app \<Rightarrow> app" where
  "startRecording seen a =
     (if seen = ''recording'' then a
      else if \<not> getDisplayMedia a then
        a\<lparr>recordingError := ''Screen capture is not supported in this browser yet.''\<rparr>
      else a\<lparr>recordingError := [],
             recordingUrl := None,
             pendingCaptures := pendingCaptures a + 1\<rparr>)"

text \<open>The \<open>catch\<close> block of \<open>startRecording\<close>; stopping the tracks of a stream ends it.\<close>

definition startRecording_catch :: "string option \<Rightarrow> app \<Rightarrow> app" where
  "startRecording_catch error a =
     (let a1 = a\<lparr>recordingError := messageOr error ''Unable to start screen recording.''\<rparr>;
          a2 = (case screenStreamRef a1 of
                  None \<Rightarrow> a1
                | Some stream \<Rightarrow> a1\<lparr>liveStreams := removeAll stream (liveStreams a1),
                                     screenStreamRef := None\<rparr>)
      in a2\<lparr>recordingState := ''idle''\<rparr>)"

text \<open>
  What the rest of the \<open>try\<close> block meets: the constructor of \<open>MediaRecorder\<close> may
  throw, and so may \<open>recorder.start()\<close>.
\<close>

datatype recorder_outcome =
    Started
  | ConstructorThrows "string option"
  | StartThrows "string option"

text \<open>\<open>startRecording\<close> resumed with a stream: the promise was fulfilled.\<close>

definition startRecording_granted :: "recorder_outcome \<Rightarrow> app \<Rightarrow> app" where
  "startRecording_granted outcome a =
     (let stream = nextStream a;
          a0 = a\<lparr>pendingCaptures := pendingCaptures a - 1,
                 nextStream := stream + 1,
                 liveStreams := liveStreams a @ [stream]\<rparr>
      in case outcome of
           ConstructorThrows error \<Rightarrow> startRecording_catch error a0
         | StartThrows error \<Rightarrow>
             startRecording_catch error
               (a0\<lparr>chunksRef := [],
                   mediaRecorderRef := Some stream,
                   screenStreamRef := Some stream\<rparr>)
         | Started \<Rightarrow>
             a0\<lparr>chunksRef := [],
                mediaRecorderRef := Some stream,
                screenStreamRef := Some stream,
                activeRecorders := activeRecorders a0 @ [stream],
                recordingState := ''recording''\<rparr>)"

text \<open>\<open>startRecording\<close> resumed with an error: the promise was rejected.\<close>

definition startRecording_rejected :: "string option \<Rightarrow> app \<Rightarrow> app" where
  "startRecording_rejected error a =
     startRecording_catch error (a\<lparr>pendingCaptures := pendingCaptures a - 1\<rparr>)"

text \<open>\<open>recorder.ondataavailable\<close>, with \<open>event.data\<close>.\<close>

definition ondataavailable :: "blob \<Rightarrow> app \<Rightarrow> app" where
  "ondataavailable data a =
     (if length data > 0 then a\<lparr>chunksRef := chunksRef a @ [data]\<rparr> else a)"

text \<open>\<open>recorder.onstop\<close> of the recorder constructed on \<open>stream\<close>.\<close>

definition onstop :: "nat \<Rightarrow> app \<Rightarrow> app" where
  "onstop stream a =
     a\<lparr>recordingUrl := Some (concat (chunksRef a)),
       chunksRef := [],
       liveStreams := removeAll stream (liveStreams a),
       screenStreamRef := None,
       recordingState := ''idle'',
       activeRecorders := removeAll stream (activeRecorders a),
       stoppingRecorders := removeAll stream (stoppingRecorders a)\<rparr>"

text \<open>
  \<open>stopRecording\<close>, made by a render whose \<open>recordingState\<close> was \<open>seen\<close>; the recorder's
  \<open>stop()\<close> only asks for the end of the recording, and \<open>onstop\<close> fires later; on a
  recorder that has already stopped it does nothing.
\<close>

definition stopRecording :: "string \<Rightarrow> app \<Rightarrow> app" where
  "stopRecording seen a =
     (if seen \<noteq> ''recording'' then a
      else
        (case mediaRecorderRef a of
           None \<Rightarrow> a
         | Some recorder \<Rightarrow>
             a\<lparr>recordingState := ''processing'',
               activeRecorders := removeAll recorder (activeRecorders a),
               stoppingRecorders :=
                 (if recorder \<in> set (activeRecorders a)
                  then stoppingRecorders a @ [recorder] else stoppingRecorders a),
               mediaRecorderRef := None\<rparr>))"

subsection \<open>Keyboard shortcuts and the panel\<close>

record key_event =
  metaKey :: bool
  ctrlKey :: bool
  altKey :: bool
  tagName :: string
  key :: string

text \<open>\<open>toLowerCase\<close> on the letters \<open>A\<close> to \<open>Z\<close>; every other character of a key name is kept.\<close>

definition toLowerCase :: "string \<Rightarrow> string" where
  "toLowerCase s =
     map (\<lambda>c. case map_of (zip ''ABCDEFGHIJKLMNOPQRSTUVWXYZ'' ''abcdefghijklmnopqrstuvwxyz'') c of
                 None \<Rightarrow> c
               | Some l \<Rightarrow> l) s"

definition handler :: "key_event \<Rightarrow> app \<Rightarrow> app" where
  "handler event a =
     (if metaKey event \<or> ctrlKey event \<or> altKey event then a
      else if tagName event \<in> set [''INPUT'', ''TEXTAREA''] then a
      else if toLowerCase (key event) = ''t'' then a\<lparr>isActive := \<not> isActive a\<rparr>
      else if toLowerCase (key event) = ''r'' then
        (if recordingState a = ''recording'' then stopRecording (recordingState a) a
         else startRecording (recordingState a) a)
      else if key event = ''['' then
        a\<lparr>trailSize := max 12 (trailSize a - 2), activePresetId := None\<rparr>
      else if key event = '']'' then
        a\<lparr>trailSize := min 60 (trailSize a + 2), activePresetId := None\<rparr>
      else
        (case find (\<lambda>combo. shortcut combo = key event) PRESET_COMBOS of
           None \<Rightarrow> a
         | Some preset \<Rightarrow> applyPreset (Some preset) a))"

text \<open>
  The \<open>onClick\<close> and \<open>onChange\<close> handlers of the panel. Like the key handler, they are
  those of the latest render, so the closures they call have seen the current
  \<open>recordingState\<close>.
\<close>

definition clickToggle :: "app \<Rightarrow> app" where
  "clickToggle a = a\<lparr>isActive := \<not> isActive a\<rparr>"

definition clickStyle :: "string \<Rightarrow> app \<Rightarrow> app" where
  "clickStyle styleId a = a\<lparr>trailStyle := styleId, activePresetId := None\<rparr>"

definition clickColor :: "string \<Rightarrow> app \<Rightarrow> app" where
  "clickColor colorValue a = a\<lparr>trailColor := colorValue, activePresetId := None\<rparr>"

definition changeSize :: "real \<Rightarrow> app \<Rightarrow> app" where
  "changeSize v a = a\<lparr>trailSize := v, activePresetId := None\<rparr>"

definition changeFade :: "real \<Rightarrow> app \<Rightarrow> app" where
  "changeFade v a = a\<lparr>fadeSpeed := v, activePresetId := None\<rparr>"

definition clickRecord :: "app \<Rightarrow> app" where
  "clickRecord a =
     (if recordingState a = ''recording'' then stopRecording (recordingState a) a
      else startRecording (recordingState a) a)"

subsection \<open>The host bridge\<close>

definition updateObsState :: "app \<Rightarrow> app" where
  "updateObsState a = a\<lparr>obsReady := obsstudio a\<rparr>"

text \<open>
  The object \<open>controls\<close> built by a render whose \<open>recordingState\<close> was \<open>seen\<close>: its property
  names with the functions they hold. A function is given the first argument of the
  call.
\<close>

definition controls :: "string \<Rightarrow> (string \<times> (string \<Rightarrow> app \<Rightarrow> app)) list" where
  "controls seen =
     [(''toggle'', \<lambda>arg a. a\<lparr>isActive := \<not> isActive a\<rparr>),
      (''applyPreset'', \<lambda>presetId a.
          (case find (\<lambda>combo. pid combo = presetId) PRESET_COMBOS of
             None \<Rightarrow> a
           | Some preset \<Rightarrow> applyPreset (Some preset) a)),
      (''startRecording'', \<lambda>arg. startRecording seen),
      (''stopRecording'', \<lambda>arg. stopRecording seen)]"

text \<open>
  The body of the effect that installs the object. Each run makes a new object, which
  the browser tells from every other by its identity; the run's cleanup keeps the
  object and compares it with the installed one. Every object that was installed is
  one the host may have kept.
\<close>

definition installControls :: "app \<Rightarrow> control_object \<times> app" where
  "installControls a =
     (let object = \<lparr>identity = nextObject a, rendered = recordingState a\<rparr>
      in (object, a\<lparr>cursorTrailControls := Some object,
                    published := published a @ [object],
                    nextObject := nextObject a + 1\<rparr>))"

definition removeControls :: "control_object \<Rightarrow> app \<Rightarrow> app" where
  "removeControls object a =
     (if cursorTrailControls a = Some object then a\<lparr>cursorTrailControls := None\<rparr> else a)"

text \<open>
  One run of the effect: the cleanup of the run before, if there was one, then the
  body.
\<close>

definition controlsEffect :: "app \<Rightarrow> app" where
  "controlsEffect a =
     (let cleaned = (case controlsCleanup a of
                       None \<Rightarrow> a
                     | Some previous \<Rightarrow> removeControls previous a);
          installed = installControls cleaned
      in (snd installed)\<lparr>controlsCleanup := Some (fst installed)\<rparr>)"

text \<open>
  The render that follows a handler. The effect depends on \<open>startRecording\<close> and
  \<open>stopRecording\<close>, which are made anew exactly when \<open>recordingState\<close> has changed, so the
  effect runs again exactly then.
\<close>

definition rerender :: "app \<Rightarrow> app \<Rightarrow> app" where
  "rerender before after =
     (if recordingState after = recordingState before then after else controlsEffect after)"

text \<open>A handler or callback, followed by the render its state updates cause.\<close>

definition thenRender :: "(app \<Rightarrow> app) \<Rightarrow> app \<Rightarrow> app" where
  "thenRender f a = rerender a (f a)"

text \<open>
  A host calling \<open>object.name(arg)\<close> on a control object it holds: a \<open>TypeError\<close> when
  the object has no such property. Calling \<open>window.cursorTrailControls.name(arg)\<close> is
  that call on the installed object, and a \<open>TypeError\<close> when none is installed.
\<close>

definition callObject :: "control_object \<Rightarrow> string \<Rightarrow> string \<Rightarrow> app \<Rightarrow> type_error + app" where
  "callObject object name arg a =
     (case map_of (controls (rendered object)) name of
        None \<Rightarrow> Inl TypeError
      | Some f \<Rightarrow> Inr (f arg a))"

definition callControl :: "string \<Rightarrow> string \<Rightarrow> app \<Rightarrow> type_error + app" where
  "callControl name arg a =
     (case cursorTrailControls a of
        None \<Rightarrow> Inl TypeError
      | Some object \<Rightarrow> callObject object name arg a)"

subsection \<open>Events\<close>

definition TRAIL_STYLES :: "(string \<times> string) list" where
  "TRAIL_STYLES =
     [(''gradient'', ''Gradient''), (''sparkle'', ''Sparkle''), (''brush'', ''Brush''),
      (''star'', ''Star''), (''glow'', ''Glow'')]"

definition COLOR_PRESETS :: "(string \<times> string) list" where
  "COLOR_PRESETS =
     [(''Purple'', ''#8B5CF6''), (''Blue'', ''#3B82F6''), (''Pink'', ''#EC4899''),
      (''Green'', ''#10B981''), (''Orange'', ''#F59E0B''), (''Canva'', ''#00C4CC'')]"

text \<open>
  Everything that can happen to the mounted component: input from the user, an animation
  frame, a call from the host on a control object, the browser settling a capture
  request, and the callbacks of a recorder.
\<close>

datatype event =
    MouseMove mouse_event real
  | Frame
  | KeyDown key_event
  | ClickToggle
  | ClickStyle string
  | ClickColor string
  | ClickPreset preset
  | ChangeSize real
  | ChangeFade real
  | ClickRecord
  | HostCall control_object string string
  | ObsPoll
  | Persist
  | CaptureGranted recorder_outcome
  | CaptureRejected "string option"
  | DataAvailable nat blob
  | RecorderStopped nat

text \<open>
  One event; \<open>None\<close> when the event cannot happen in this state (a button that is not
  on the panel, a slider value out of the slider's range, a random number outside
  \<open>[0, 1)\<close>, a host call that throws or goes through an object that was never
  installed, a promise that is not pending, a callback of a recorder that is not
  running). The host may call any object that was installed at some time, the current
  one or one it has kept. A recorder stops after its \<open>stop()\<close> was called, and also when
  its stream ends because the user stops the sharing. The component renders after the
  handler.
\<close>

fun step :: "event \<Rightarrow> app \<Rightarrow> app option" where
  "step (MouseMove e random) a =
     (if 0 \<le> random \<and> random < 1 then Some (handleMouseMove e random a) else None)"
| "step Frame a = Some (render a)"
| "step (KeyDown e) a = Some (thenRender (handler e) a)"
| "step ClickToggle a = Some (clickToggle a)"
| "step (ClickStyle s) a =
     (if s \<in> set (map fst TRAIL_STYLES) then Some (clickStyle s a) else None)"
| "step (ClickColor c) a =
     (if c \<in> set (map snd COLOR_PRESETS) then Some (clickColor c a) else None)"
| "step (ClickPreset p) a =
     (if p \<in> set PRESET_COMBOS then Some (applyPreset (Some p) a) else None)"
| "step (ChangeSize v) a = (if 12 \<le> v \<and> v \<le> 60 then Some (changeSize v a) else None)"
| "step (ChangeFade v) a = (if 20 \<le> v \<and> v \<le> 120 then Some (changeFade v a) else None)"
| "step ClickRecord a = Some (thenRender clickRecord a)"
| "step (HostCall object name arg) a =
     (if object \<in> set (published a) then
        (case callObject object name arg a of
           Inl error \<Rightarrow> None
         | Inr a' \<Rightarrow> Some (rerender a a'))
      else None)"
| "step ObsPoll a = Some (updateObsState a)"
| "step Persist a = Some (saveSettings a)"
| "step (CaptureGranted outcome) a =
     (if pendingCaptures a > 0 then Some (thenRender (startRecording_granted outcome) a)
      else None)"
| "step (CaptureRejected error) a =
     (if pendingCaptures a > 0 then Some (thenRender (startRecording_rejected error) a)
      else None)"
| "step (DataAvailable recorder data) a =
     (if recorder \<in> set (activeRecorders a) \<or> recorder \<in> set (stoppingRecorders a)
      then Some (ondataavailable data a) else None)"
| "step (RecorderStopped recorder) a =
     (if recorder \<in> set (activeRecorders a) \<or> recorder \<in> set (stoppingRecorders a)
      then Some (thenRender (onstop recorder) a) else None)"

fun run :: "event list \<Rightarrow> app \<Rightarrow> app option" where
  "run [] a = Some a"
| "run (e # es) a = (case step e a of None \<Rightarrow> None | Some a' \<Rightarrow> run es a')"

text \<open>
  The component once mounted in a browser: its effects have run in the order they are
  written (the settings are loaded, the first frame is drawn, the host is looked for,
  the control surface is installed).
\<close>

definition boot :: "app \<Rightarrow> app" where
  "boot b = controlsEffect (updateObsState (render (loadSettings (mount b))))"

subsection \<open>The operations as the specification words them\<close>

text \<open>
  \<open>advance(fadeRate)\<close>: for every point, \<open>life -= fadeRate/1000\<close>; points with
  \<open>life \<le> 0\<close> are removed; the order of the survivors is kept.
\<close>

definition advance :: "real \<Rightarrow> point list \<Rightarrow> point list" where
  "advance fadeRate pool =
     filter (\<lambda>p. \<not> life p \<le> 0) (map (\<lambda>p. p\<lparr>life := life p - fadeRate / 1000\<rparr>) pool)"

text \<open>
  The \<open>k\<close>-th vertex of the star around \<open>(cx, cy)\<close>: vertices alternate between the outer
  radius and \<open>0.45\<close> of it, a tenth of a turn apart, the first one at angle \<open>-\<pi>/2\<close>.
\<close>

definition star_vertex :: "real \<Rightarrow> real \<Rightarrow> real \<Rightarrow> nat \<Rightarrow> real \<times> real" where
  "star_vertex cx cy radius k =
     (let angle = - (pi / 2) + real k * (pi / 5);
          d = (if even k then radius else 0.45 * radius)
      in (cx + cos angle * d, cy + sin angle * d))"

definition distance :: "real \<times> real \<Rightarrow> real \<times> real \<Rightarrow> real" where
  "distance p q = sqrt ((fst q - fst p)\<^sup>2 + (snd q - snd p)\<^sup>2)"

text \<open>The vertices of the paths a sequence of canvas calls traces.\<close>

fun vertices :: "canvas_call list \<Rightarrow> (real \<times> real) list" where
  "vertices [] = []"
| "vertices (MoveTo vx vy # calls) = (vx, vy) # vertices calls"
| "vertices (LineTo vx vy # calls) = (vx, vy) # vertices calls"
| "vertices (call # calls) = vertices calls"

text \<open>The states of a recording session in which the capture stream is held.\<close>

definition holdsStream :: "app \<Rightarrow> bool" where
  "holdsStream a = (screenStreamRef a \<noteq> None)"

text \<open>A key event the shortcut dispatcher does not ignore.\<close>

definition dispatched :: "key_event \<Rightarrow> bool" where
  "dispatched e =
     (\<not> metaKey e \<and> \<not> ctrlKey e \<and> \<not> altKey e \<and> tagName e \<noteq> ''INPUT'' \<and> tagName e \<noteq> ''TEXTAREA'')"

text \<open>
  The session state and the stream reference agree: while recording the stream is held,
  while idle it is not, and the only other state is processing.
\<close>

definition stream_invariant :: "app \<Rightarrow> bool" where
  "stream_invariant a =
     (recordingState a = ''recording'' \<and> holdsStream a
      \<or> recordingState a = ''idle'' \<and> \<not> holdsStream a
      \<or> recordingState a = ''processing'')"

section \<open>Properties\<close>

text \<open>Applying the preset that was found, if any, is \<open>applyPreset\<close> on the result of the search.\<close>

lemma applyPreset_found [simp]:
  "(case found of None \<Rightarrow> a | Some preset \<Rightarrow> applyPreset (Some preset) a) = applyPreset found a"
  by (cases found) (simp_all add: applyPreset_def)

subsection \<open>Settings persistence\<close>

text \<open>\<open>restore\<close> in closed form: one update per setting.\<close>

lemma restore_eq:
  "restore parsed a =
     (if parsed = JNull then Inl TypeError
      else Inr (a\<lparr>isActive := (case boolean_of (property parsed ''isActive'') of
                                  Some v \<Rightarrow> v | None \<Rightarrow> isActive a),
                  trailStyle := (case string_of (property parsed ''trailStyle'') of
                                  Some v \<Rightarrow> v | None \<Rightarrow> trailStyle a),
                  trailColor := (case string_of (property parsed ''trailColor'') of
                                  Some v \<Rightarrow> v | None \<Rightarrow> trailColor a),
                  trailSize := (case number_of (property parsed ''trailSize'') of
                                  Some v \<Rightarrow> v | None \<Rightarrow> trailSize a),
                  fadeSpeed := (case number_of (property parsed ''fadeSpeed'') of
                                  Some v \<Rightarrow> v | None \<Rightarrow> fadeSpeed a),
                  activePresetId := (case string_of (property parsed ''activePresetId'') of
                                  Some v \<Rightarrow> Some v | None \<Rightarrow> activePresetId a)\<rparr>))"
  by (cases "boolean_of (property parsed ''isActive'')";
      cases "string_of (property parsed ''trailStyle'')";
      cases "string_of (property parsed ''trailColor'')";
      cases "number_of (property parsed ''trailSize'')";
      cases "number_of (property parsed ''fadeSpeed'')";
      cases "string_of (property parsed ''activePresetId'')")
     (simp_all add: restore_def)

lemma loadSettings_Document:
  assumes "localStorage a STORAGE_KEY = Some (Document parsed)"
  shows "loadSettings a =
     a\<lparr>isActive := (case boolean_of (property parsed ''isActive'') of
                      Some v \<Rightarrow> v | None \<Rightarrow> isActive a),
       trailStyle := (case string_of (property parsed ''trailStyle'') of
                      Some v \<Rightarrow> v | None \<Rightarrow> trailStyle a),
       trailColor := (case string_of (property parsed ''trailColor'') of
                      Some v \<Rightarrow> v | None \<Rightarrow> trailColor a),
       trailSize := (case number_of (property parsed ''trailSize'') of
                      Some v \<Rightarrow> v | None \<Rightarrow> trailSize a),
       fadeSpeed := (case number_of (property parsed ''fadeSpeed'') of
                      Some v \<Rightarrow> v | None \<Rightarrow> fadeSpeed a),
       activePresetId := (case string_of (property parsed ''activePresetId'') of
                      Some v \<Rightarrow> Some v | None \<Rightarrow> activePresetId a),
       settingsHydrated := True\<rparr>"
proof (cases "parsed = JNull")
  case True
  with assms show ?thesis by (simp add: loadSettings_def restore_eq)
next
  case False
  with assms show ?thesis by (simp add: loadSettings_def restore_eq)
qed

lemma loadSettings_no_document:
  assumes "localStorage a STORAGE_KEY = None \<or> localStorage a STORAGE_KEY = Some (Invalid garbage)"
  shows "loadSettings a = a\<lparr>settingsHydrated := True\<rparr>"
  using assms by (auto simp add: loadSettings_def)

lemma property_payload:
  "property (payload s) ''isActive'' = Some (JBool (isActive s))"
  "property (payload s) ''trailStyle'' = Some (JStr (trailStyle s))"
  "property (payload s) ''trailColor'' = Some (JStr (trailColor s))"
  "property (payload s) ''trailSize'' = Some (JNum (trailSize s))"
  "property (payload s) ''fadeSpeed'' = Some (JNum (fadeSpeed s))"
  "property (payload s) ''activePresetId'' =
     Some (case activePresetId s of None \<Rightarrow> JNull | Some v \<Rightarrow> JStr v)"
  by (simp_all add: payload_def)

lemma stored_after_save:
  "settingsHydrated s \<Longrightarrow> localStorage (mount (saveSettings s)) STORAGE_KEY = Some (Document (payload s))"
  by (simp add: saveSettings_def mount_def)

lemma round_trip:
  assumes "settingsHydrated s"
  shows "isActive (loadSettings (mount (saveSettings s))) = isActive s"
    and "trailStyle (loadSettings (mount (saveSettings s))) = trailStyle s"
    and "trailColor (loadSettings (mount (saveSettings s))) = trailColor s"
    and "trailSize (loadSettings (mount (saveSettings s))) = trailSize s"
    and "fadeSpeed (loadSettings (mount (saveSettings s))) = fadeSpeed s"
    and "activePresetId (loadSettings (mount (saveSettings s))) = activePresetId s"
proof -
  note doc = loadSettings_Document [OF stored_after_save [OF assms]]
  show "isActive (loadSettings (mount (saveSettings s))) = isActive s"
    by (simp add: doc property_payload)
  show "trailStyle (loadSettings (mount (saveSettings s))) = trailStyle s"
    by (simp add: doc property_payload)
  show "trailColor (loadSettings (mount (saveSettings s))) = trailColor s"
    by (simp add: doc property_payload)
  show "trailSize (loadSettings (mount (saveSettings s))) = trailSize s"
    by (simp add: doc property_payload)
  show "fadeSpeed (loadSettings (mount (saveSettings s))) = fadeSpeed s"
    by (simp add: doc property_payload)
  have m: "activePresetId (mount (saveSettings s)) = None"
    by (simp add: mount_def)
  show "activePresetId (loadSettings (mount (saveSettings s))) = activePresetId s"
    by (cases "activePresetId s") (simp_all add: doc property_payload m)
qed


lemma mount_defaults:
  "isActive (mount b) = True" "trailStyle (mount b) = ''gradient''"
  "trailColor (mount b) = ''#8B5CF6''" "trailSize (mount b) = 22" "fadeSpeed (mount b) = 55"
  "activePresetId (mount b) = None" "settingsHydrated (mount b) = False"
  "localStorage (mount b) = localStorage b"
  by (simp_all add: mount_def)

subsection \<open>The particle pool\<close>

lemma render_points_acc:
  "render_points a ps (nextPoints, ctx) =
     (nextPoints @ advance (fadeSpeed a) ps,
      ctx @ concat (map (\<lambda>p. drawPoint p \<lparr>style = trailStyle a, color = trailColor a, size = trailSize a\<rparr>)
                        (advance (fadeSpeed a) ps)))"
  by (induction ps arbitrary: nextPoints ctx) (simp_all add: advance_def Let_def)

lemma pointsRef_render: "pointsRef (render a) = advance (fadeSpeed a) (pointsRef a)"
  by (simp add: render_def render_points_acc)

lemma canvas_render:
  "canvas (render a) =
     ClearRect # concat (map (\<lambda>p. drawPoint p \<lparr>style = trailStyle a, color = trailColor a, size = trailSize a\<rparr>)
                             (advance (fadeSpeed a) (pointsRef a)))"
  by (simp add: render_def render_points_acc)

lemma length_advance: "length (advance f ps) \<le> length ps"
  by (simp add: advance_def)

lemma advance_append: "advance f (xs @ ys) = advance f xs @ advance f ys"
  by (simp add: advance_def)

lemma fadeSpeed_render: "fadeSpeed (render a) = fadeSpeed a"
  by (simp add: render_def split: prod.split)

lemma fadeSpeed_render_pow: "fadeSpeed ((render ^^ k) a) = fadeSpeed a"
  by (induction k) (simp_all add: fadeSpeed_render)

lemma pointsRef_render_pow: "pointsRef ((render ^^ k) a) = (advance (fadeSpeed a) ^^ k) (pointsRef a)"
  by (induction k) (simp_all add: pointsRef_render fadeSpeed_render_pow)

lemma advance_pow_append: "(advance f ^^ k) (xs @ ys) = (advance f ^^ k) xs @ (advance f ^^ k) ys"
  by (induction k) (simp_all add: advance_append)

lemma advance_pow_alive:
  "0 < life p - real k * (f / 1000) \<Longrightarrow> 0 \<le> f \<Longrightarrow>
   (advance f ^^ k) [p] = [p\<lparr>life := life p - real k * (f / 1000)\<rparr>]"
proof (induction k)
  case 0
  then show ?case by simp
next
  case (Suc k)
  have "life p - real k * (f / 1000) \<ge> life p - real (Suc k) * (f / 1000)"
    using Suc.prems(2) by (simp add: algebra_simps)
  with Suc.prems have "0 < life p - real k * (f / 1000)" by linarith
  with Suc have ih: "(advance f ^^ k) [p] = [p\<lparr>life := life p - real k * (f / 1000)\<rparr>]" by simp
  have "(advance f ^^ Suc k) [p] = advance f [p\<lparr>life := life p - real k * (f / 1000)\<rparr>]"
    by (simp add: ih)
  also have "\<dots> = [p\<lparr>life := life p - real (Suc k) * (f / 1000)\<rparr>]"
    using Suc.prems(1) by (simp add: advance_def algebra_simps)
  finally show ?case .
qed

lemma handleMouseMove_length:
  "length (pointsRef a) \<le> MAX_POINTS \<Longrightarrow> length (pointsRef (handleMouseMove e r a)) \<le> MAX_POINTS"
  by (simp add: handleMouseMove_def Let_def)

text \<open>Only a pointer move and a frame change the pool.\<close>

lemma pointsRef_applyPreset: "pointsRef (applyPreset p a) = pointsRef a"
  by (simp add: applyPreset_def split: option.split)

lemma pointsRef_startRecording: "pointsRef (startRecording seen a) = pointsRef a"
  by (simp add: startRecording_def)

lemma pointsRef_stopRecording: "pointsRef (stopRecording seen a) = pointsRef a"
  by (simp add: stopRecording_def split: option.split)

lemma pointsRef_catch: "pointsRef (startRecording_catch err a) = pointsRef a"
  by (simp add: startRecording_catch_def Let_def split: option.split)

lemma pointsRef_granted: "pointsRef (startRecording_granted outcome a) = pointsRef a"
  by (simp add: startRecording_granted_def Let_def pointsRef_catch split: recorder_outcome.split)

lemma pointsRef_rejected: "pointsRef (startRecording_rejected err a) = pointsRef a"
  by (simp add: startRecording_rejected_def pointsRef_catch)

lemma pointsRef_handler: "pointsRef (handler e a) = pointsRef a"
  by (simp add: handler_def pointsRef_applyPreset pointsRef_startRecording pointsRef_stopRecording)

lemma callObject_cases:
  assumes "callObject object name arg a = Inr a'"
  shows "a' = a\<lparr>isActive := \<not> isActive a\<rparr>
       \<or> a' = applyPreset (find (\<lambda>combo. pid combo = arg) PRESET_COMBOS) a
       \<or> a' = startRecording (rendered object) a
       \<or> a' = stopRecording (rendered object) a"
  using assms
  by (auto simp add: callObject_def controls_def split: option.splits if_splits)

lemma pointsRef_callObject: "callObject object name arg a = Inr a' \<Longrightarrow> pointsRef a' = pointsRef a"
  by (drule callObject_cases)
     (auto simp add: pointsRef_applyPreset pointsRef_startRecording pointsRef_stopRecording)

lemma pointsRef_controlsEffect: "pointsRef (controlsEffect a) = pointsRef a"
  by (simp add: controlsEffect_def installControls_def removeControls_def Let_def
        split: option.split)

lemma pointsRef_rerender: "pointsRef (rerender before a) = pointsRef a"
  by (simp add: rerender_def pointsRef_controlsEffect)

lemma pointsRef_thenRender: "pointsRef (thenRender f a) = pointsRef (f a)"
  by (simp add: thenRender_def pointsRef_rerender)

lemma pointsRef_loadSettings: "pointsRef (loadSettings a) = pointsRef a"
  by (simp add: loadSettings_def restore_eq Let_def split: option.split stored_text.split)

lemma step_pool:
  assumes "step e a = Some a'" and "length (pointsRef a) \<le> MAX_POINTS"
  shows "length (pointsRef a') \<le> MAX_POINTS"
proof (cases e)
  case (MouseMove ev r)
  with assms show ?thesis by (auto simp add: handleMouseMove_length split: if_splits)
next
  case Frame
  with assms show ?thesis
    using length_advance [of "fadeSpeed a" "pointsRef a"] by (auto simp add: pointsRef_render)
next
  case (KeyDown ev)
  with assms show ?thesis by (auto simp add: pointsRef_thenRender pointsRef_handler)
next
  case ClickToggle
  with assms show ?thesis by (auto simp add: clickToggle_def)
next
  case (ClickStyle s)
  with assms show ?thesis by (auto simp add: clickStyle_def split: if_splits)
next
  case (ClickColor c)
  with assms show ?thesis by (auto simp add: clickColor_def split: if_splits)
next
  case (ClickPreset p)
  with assms show ?thesis by (auto simp add: pointsRef_applyPreset split: if_splits)
next
  case (ChangeSize v)
  with assms show ?thesis by (auto simp add: changeSize_def split: if_splits)
next
  case (ChangeFade v)
  with assms show ?thesis by (auto simp add: changeFade_def split: if_splits)
next
  case ClickRecord
  with assms show ?thesis
    by (auto simp add: clickRecord_def pointsRef_thenRender pointsRef_startRecording
          pointsRef_stopRecording)
next
  case (HostCall object name arg)
  with assms show ?thesis
    by (auto simp add: pointsRef_rerender pointsRef_callObject split: sum.splits if_splits)
next
  case ObsPoll
  with assms show ?thesis by (auto simp add: updateObsState_def)
next
  case Persist
  with assms show ?thesis by (auto simp add: saveSettings_def)
next
  case (CaptureGranted outcome)
  with assms show ?thesis
    by (auto simp add: pointsRef_thenRender pointsRef_granted split: if_splits)
next
  case (CaptureRejected err)
  with assms show ?thesis
    by (auto simp add: pointsRef_thenRender pointsRef_rejected split: if_splits)
next
  case (DataAvailable r d)
  with assms show ?thesis by (auto simp add: ondataavailable_def split: if_splits)
next
  case (RecorderStopped r)
  with assms show ?thesis
    by (auto simp add: pointsRef_thenRender onstop_def split: if_splits)
qed

lemma run_pool:
  "run es a = Some a' \<Longrightarrow> length (pointsRef a) \<le> MAX_POINTS \<Longrightarrow> length (pointsRef a') \<le> MAX_POINTS"
proof (induction es arbitrary: a)
  case Nil
  then show ?case by simp
next
  case (Cons e es)
  then show ?case by (auto split: option.splits dest: step_pool)
qed

lemma pointsRef_boot: "pointsRef (boot b) = []"
  by (simp add: boot_def pointsRef_controlsEffect updateObsState_def pointsRef_render
        pointsRef_loadSettings mount_def advance_def)

lemma advance_pow_Nil: "(advance f ^^ k) [] = []"
  by (induction k) (simp_all add: advance_def)

text \<open>Pointer moves fill the pool of an active component up to its capacity.\<close>

lemma moves_fill_pool:
  assumes "isActive a" and "length (pointsRef a) + n \<le> MAX_POINTS" and "0 \<le> r" and "r < 1"
  shows "run (replicate n (MouseMove e r)) a =
           Some (a\<lparr>pointsRef := pointsRef a @
                   replicate n \<lparr>px = clientX e, py = clientY e, life = 1, seed = r * pi * 2\<rparr>\<rparr>)"
  using assms
proof (induction n arbitrary: a)
  case 0
  then show ?case by simp
next
  case (Suc n)
  let ?p = "\<lparr>px = clientX e, py = clientY e, life = 1, seed = r * pi * 2\<rparr>"
  let ?a = "a\<lparr>pointsRef := pointsRef a @ [?p]\<rparr>"
  have move: "handleMouseMove e r a = ?a"
    using Suc.prems(1,2) by (simp add: handleMouseMove_def Let_def)
  have "run (replicate n (MouseMove e r)) ?a =
          Some (?a\<lparr>pointsRef := pointsRef ?a @ replicate n ?p\<rparr>)"
    using Suc.prems by (intro Suc.IH) simp_all
  then show ?case
    using Suc.prems(3,4) by (simp add: move replicate_app_Cons_same)
qed

text \<open>
  The pool's arithmetic is exact here, while the program computes in double precision.
  For the fade rate 55 the difference cannot matter: whenever each frame lowers a life
  by an amount within \<open>1/10000\<close> of \<open>55/1000\<close> (rounding errors are smaller by many orders
  of magnitude), a life of 1 is still positive after up to 18 frames and is at most zero
  after 19.
\<close>

lemma sum_list_bounds:
  fixes ds :: "real list"
  assumes "\<forall>d\<in>set ds. lo \<le> d \<and> d \<le> hi"
  shows "real (length ds) * lo \<le> sum_list ds \<and> sum_list ds \<le> real (length ds) * hi"
  using assms by (induction ds) (auto simp add: algebra_simps)

lemma fade_55_margin:
  fixes ds :: "real list"
  assumes "\<forall>d\<in>set ds. \<bar>d - 55 / 1000\<bar> \<le> 1 / 10000"
  shows "length ds \<le> 18 \<Longrightarrow> 0 < 1 - sum_list ds"
    and "length ds = 19 \<Longrightarrow> 1 - sum_list ds \<le> 0"
proof -
  have b: "\<forall>d\<in>set ds. 549 / 10000 \<le> d \<and> d \<le> 551 / 10000"
  proof
    fix d assume "d \<in> set ds"
    with assms have "\<bar>d - 55 / 1000\<bar> \<le> 1 / 10000" by blast
    then show "549 / 10000 \<le> d \<and> d \<le> 551 / 10000" by linarith
  qed
  note s = sum_list_bounds [OF b]
  show "0 < 1 - sum_list ds" if "length ds \<le> 18"
  proof -
    from that have "real (length ds) \<le> 18" by simp
    then have "real (length ds) * (551 / 10000) \<le> 18 * (551 / 10000)"
      by (intro mult_right_mono) simp_all
    with s show ?thesis by simp
  qed
  show "1 - sum_list ds \<le> 0" if "length ds = 19"
    using s that by simp
qed

subsection \<open>The star style\<close>

lemma star_spikes_5:
  "star_spikes p r 5 0 =
     MoveTo (fst (star_vertex (px p) (py p) r 0)) (snd (star_vertex (px p) (py p) r 0)) #
     map (\<lambda>k. LineTo (fst (star_vertex (px p) (py p) r k)) (snd (star_vertex (px p) (py p) r k)))
         [1, 2, 3, 4, 5, 6, 7, 8, 9]"
  by (simp add: star_vertex_def Let_def algebra_simps)

lemma distance_star_vertex:
  "distance (cx, cy) (star_vertex cx cy r k) = (if even k then \<bar>r\<bar> else 0.45 * \<bar>r\<bar>)"
proof -
  have "sqrt ((cos t * d)\<^sup>2 + (sin t * d)\<^sup>2) = \<bar>d\<bar>" for t d :: real
  proof -
    have "(cos t * d)\<^sup>2 + (sin t * d)\<^sup>2 = ((cos t)\<^sup>2 + (sin t)\<^sup>2) * d\<^sup>2"
      by (simp only: power_mult_distrib distrib_right)
    also have "\<dots> = d\<^sup>2" by simp
    finally show ?thesis by simp
  qed
  then show ?thesis
    by (simp add: distance_def star_vertex_def Let_def abs_mult)
qed

subsection \<open>Presets and shortcuts\<close>

lemma shortcuts:
  "shortcut tutorial_pop = ''1''" "shortcut signature_cyan = ''2''" "shortcut brush_studio = ''3''"
  by (simp_all add: tutorial_pop_def signature_cyan_def brush_studio_def)

lemma pids:
  "pid tutorial_pop = ''tutorial-pop''" "pid signature_cyan = ''signature-cyan''"
  "pid brush_studio = ''brush-studio''"
  by (simp_all add: tutorial_pop_def signature_cyan_def brush_studio_def)

lemma preset_cases:
  "p \<in> set PRESET_COMBOS \<Longrightarrow> p = tutorial_pop \<or> p = signature_cyan \<or> p = brush_studio"
  unfolding PRESET_COMBOS_def by (simp only: list.set insert_iff empty_iff simp_thms)

lemma find_by_shortcut:
  "find (\<lambda>combo. shortcut combo = ''1'') PRESET_COMBOS = Some tutorial_pop"
  "find (\<lambda>combo. shortcut combo = ''2'') PRESET_COMBOS = Some signature_cyan"
  "find (\<lambda>combo. shortcut combo = ''3'') PRESET_COMBOS = Some brush_studio"
  by (simp_all add: PRESET_COMBOS_def shortcuts)

lemma find_by_pid:
  "find (\<lambda>combo. pid combo = ''tutorial-pop'') PRESET_COMBOS = Some tutorial_pop"
  "find (\<lambda>combo. pid combo = ''signature-cyan'') PRESET_COMBOS = Some signature_cyan"
  "find (\<lambda>combo. pid combo = ''brush-studio'') PRESET_COMBOS = Some brush_studio"
  by (simp_all add: PRESET_COMBOS_def pids)

lemma find_shortcut:
  "p \<in> set PRESET_COMBOS \<Longrightarrow> find (\<lambda>combo. shortcut combo = shortcut p) PRESET_COMBOS = Some p"
  by (drule preset_cases, elim disjE) (simp_all only: shortcuts find_by_shortcut)

lemma find_pid:
  "p \<in> set PRESET_COMBOS \<Longrightarrow> find (\<lambda>combo. pid combo = pid p) PRESET_COMBOS = Some p"
  by (drule preset_cases, elim disjE) (simp_all only: pids find_by_pid)

lemma shortcut_is_digit:
  "p \<in> set PRESET_COMBOS \<Longrightarrow> shortcut p = ''1'' \<or> shortcut p = ''2'' \<or> shortcut p = ''3''"
  by (drule preset_cases, elim disjE) (simp_all only: shortcuts simp_thms)

lemma handler_shortcut:
  assumes "p \<in> set PRESET_COMBOS" and "key e = shortcut p" and "dispatched e"
  shows "handler e a = applyPreset (Some p) a"
proof -
  from shortcut_is_digit [OF assms(1)] assms(2)
  have k: "key e = ''1'' \<or> key e = ''2'' \<or> key e = ''3''" by simp
  then have "toLowerCase (key e) \<noteq> ''t''" "toLowerCase (key e) \<noteq> ''r''"
    "key e \<noteq> ''[''" "key e \<noteq> '']''"
    by (auto simp add: toLowerCase_def)
  then show ?thesis
    using assms by (simp add: handler_def dispatched_def find_shortcut)
qed

lemma boot_installed: "cursorTrailControls (boot b) \<noteq> None"
  by (simp add: boot_def controlsEffect_def installControls_def Let_def)

subsection \<open>The mounted component and the control surface\<close>

lemma boot_browser:
  "boot (browser capture) =
     \<lparr>isActive = True, trailStyle = ''gradient'', trailColor = ''#8B5CF6'', trailSize = 22,
      fadeSpeed = 55, activePresetId = None, settingsHydrated = True, obsReady = False,
      recordingState = ''idle'', recordingUrl = None, recordingError = [],
      pointsRef = [], mediaRecorderRef = None, chunksRef = [], screenStreamRef = None,
      controlsCleanup = Some \<lparr>identity = 0, rendered = ''idle''\<rparr>, canvas = [ClearRect],
      getDisplayMedia = capture, pendingCaptures = 0, nextStream = 0, liveStreams = [],
      activeRecorders = [], stoppingRecorders = [], localStorage = Map.empty,
      cursorTrailControls = Some \<lparr>identity = 0, rendered = ''idle''\<rparr>,
      published = [\<lparr>identity = 0, rendered = ''idle''\<rparr>], nextObject = 1,
      obsstudio = False\<rparr>"
  by (simp add: boot_def browser_def mount_def loadSettings_def render_def controlsEffect_def
        installControls_def updateObsState_def Let_def)

lemma installControls_fresh:
  "fst (installControls a) = \<lparr>identity = nextObject a, rendered = recordingState a\<rparr>"
  "cursorTrailControls (snd (installControls a)) =
     Some \<lparr>identity = nextObject a, rendered = recordingState a\<rparr>"
  "nextObject (snd (installControls a)) = nextObject a + 1"
  "recordingState (snd (installControls a)) = recordingState a"
  by (simp_all add: installControls_def Let_def)

subsection \<open>The recording session and the stream reference\<close>

lemma inv_same:
  assumes "stream_invariant a"
    and "recordingState a' = recordingState a" and "screenStreamRef a' = screenStreamRef a"
  shows "stream_invariant a'"
  using assms by (simp add: stream_invariant_def holdsStream_def)

lemma inv_processing: "recordingState a = ''processing'' \<Longrightarrow> stream_invariant a"
  by (simp add: stream_invariant_def)

lemma inv_startRecording: "stream_invariant a \<Longrightarrow> stream_invariant (startRecording seen a)"
  by (rule inv_same [of a]) (simp_all add: startRecording_def)

lemma inv_stopRecording: "stream_invariant a \<Longrightarrow> stream_invariant (stopRecording seen a)"
proof (cases "seen = ''recording'' \<and> mediaRecorderRef a \<noteq> None")
  case True
  then have "recordingState (stopRecording seen a) = ''processing''"
    by (auto simp add: stopRecording_def)
  then show ?thesis by (rule inv_processing)
next
  case False
  then have "stopRecording seen a = a"
    by (auto simp add: stopRecording_def)
  then show "stream_invariant a \<Longrightarrow> ?thesis" by simp
qed

lemma inv_catch: "stream_invariant (startRecording_catch err a)"
  by (simp add: stream_invariant_def holdsStream_def startRecording_catch_def Let_def
        split: option.split)

lemma inv_granted: "stream_invariant (startRecording_granted outcome a)"
  by (cases outcome)
     (simp_all add: startRecording_granted_def Let_def inv_catch,
      simp add: stream_invariant_def holdsStream_def)

lemma inv_rejected: "stream_invariant (startRecording_rejected err a)"
  by (simp add: startRecording_rejected_def inv_catch)

lemma inv_onstop: "stream_invariant (onstop recorder a)"
  by (simp add: stream_invariant_def holdsStream_def onstop_def)

lemma inv_applyPreset: "stream_invariant a \<Longrightarrow> stream_invariant (applyPreset p a)"
  by (rule inv_same [of a]) (simp_all add: applyPreset_def split: option.split)

lemma inv_clickRecord: "stream_invariant a \<Longrightarrow> stream_invariant (clickRecord a)"
  by (simp add: clickRecord_def inv_startRecording inv_stopRecording)

lemma inv_toggle: "stream_invariant a \<Longrightarrow> stream_invariant (a\<lparr>isActive := v\<rparr>)"
  by (rule inv_same [of a]) simp_all

lemma inv_size:
  "stream_invariant a \<Longrightarrow> stream_invariant (a\<lparr>trailSize := v, activePresetId := None\<rparr>)"
  by (rule inv_same [of a]) simp_all

lemma inv_handler: "stream_invariant a \<Longrightarrow> stream_invariant (handler e a)"
  by (simp add: handler_def inv_startRecording inv_stopRecording inv_applyPreset inv_toggle inv_size)

lemma inv_callObject:
  "callObject object name arg a = Inr a' \<Longrightarrow> stream_invariant a \<Longrightarrow> stream_invariant a'"
  by (drule callObject_cases)
     (auto simp add: inv_startRecording inv_stopRecording inv_applyPreset inv_toggle)

lemma inv_render: "stream_invariant a \<Longrightarrow> stream_invariant (render a)"
  by (rule inv_same [of a]) (simp_all add: render_def split: prod.split)

lemma inv_handleMouseMove: "stream_invariant a \<Longrightarrow> stream_invariant (handleMouseMove e r a)"
  by (rule inv_same [of a]) (simp_all add: handleMouseMove_def Let_def)

lemma inv_controlsEffect: "stream_invariant a \<Longrightarrow> stream_invariant (controlsEffect a)"
  by (rule inv_same [of a])
     (simp_all add: controlsEffect_def installControls_def removeControls_def Let_def
        split: option.split)

lemma inv_rerender: "stream_invariant a \<Longrightarrow> stream_invariant (rerender before a)"
  by (simp add: rerender_def inv_controlsEffect)

lemma inv_thenRender: "stream_invariant (f a) \<Longrightarrow> stream_invariant (thenRender f a)"
  by (simp add: thenRender_def inv_rerender)

lemma step_stream_invariant:
  assumes "step e a = Some a'" and "stream_invariant a"
  shows "stream_invariant a'"
proof (cases e)
  case (MouseMove ev r)
  with assms show ?thesis by (auto simp add: inv_handleMouseMove split: if_splits)
next
  case Frame
  with assms show ?thesis by (auto simp add: inv_render)
next
  case (KeyDown ev)
  with assms show ?thesis by (auto simp add: inv_thenRender inv_handler)
next
  case ClickToggle
  with assms show ?thesis by (auto simp add: clickToggle_def inv_toggle)
next
  case (ClickStyle s)
  with assms have "a' = clickStyle s a" by (auto split: if_splits)
  then show ?thesis
    using assms(2) by (intro inv_same [of a a']) (simp_all add: clickStyle_def)
next
  case (ClickColor c)
  with assms have "a' = clickColor c a" by (auto split: if_splits)
  then show ?thesis
    using assms(2) by (intro inv_same [of a a']) (simp_all add: clickColor_def)
next
  case (ClickPreset p)
  with assms show ?thesis by (auto simp add: inv_applyPreset split: if_splits)
next
  case (ChangeSize v)
  with assms show ?thesis by (auto simp add: changeSize_def inv_size split: if_splits)
next
  case (ChangeFade v)
  with assms have "a' = changeFade v a" by (auto split: if_splits)
  then show ?thesis
    using assms(2) by (intro inv_same [of a a']) (simp_all add: changeFade_def)
next
  case ClickRecord
  with assms show ?thesis by (auto simp add: inv_thenRender inv_clickRecord)
next
  case (HostCall object name arg)
  with assms show ?thesis
    by (auto simp add: inv_rerender inv_callObject split: sum.splits if_splits)
next
  case ObsPoll
  with assms have "a' = updateObsState a" by simp
  then show ?thesis
    using assms(2) by (intro inv_same [of a a']) (simp_all add: updateObsState_def)
next
  case Persist
  with assms have "a' = saveSettings a" by simp
  then show ?thesis
    using assms(2) by (intro inv_same [of a a']) (simp_all add: saveSettings_def)
next
  case (CaptureGranted outcome)
  with assms show ?thesis by (auto simp add: inv_thenRender inv_granted split: if_splits)
next
  case (CaptureRejected err)
  with assms show ?thesis by (auto simp add: inv_thenRender inv_rejected split: if_splits)
next
  case (DataAvailable r d)
  with assms have "a' = ondataavailable d a" by (auto split: if_splits)
  then show ?thesis
    using assms(2) by (intro inv_same [of a a']) (simp_all add: ondataavailable_def)
next
  case (RecorderStopped r)
  with assms show ?thesis by (auto simp add: inv_thenRender inv_onstop split: if_splits)
qed

lemma run_stream_invariant:
  "run es a = Some a' \<Longrightarrow> stream_invariant a \<Longrightarrow> stream_invariant a'"
proof (induction es arbitrary: a)
  case Nil
  then show ?case by simp
next
  case (Cons e es)
  then show ?case by (auto split: option.splits dest: step_stream_invariant)
qed

lemma inv_loadSettings: "stream_invariant a \<Longrightarrow> stream_invariant (loadSettings a)"
  by (rule inv_same [of a])
     (simp_all add: loadSettings_def restore_eq Let_def split: option.split stored_text.split)

lemma inv_mount: "stream_invariant (mount b)"
  by (simp add: stream_invariant_def holdsStream_def mount_def)

lemma inv_boot: "stream_invariant (boot b)"
proof -
  have "stream_invariant (render (loadSettings (mount b)))"
    by (intro inv_render inv_loadSettings inv_mount)
  then have "stream_invariant (updateObsState (render (loadSettings (mount b))))"
    by (rule inv_same) (simp_all add: updateObsState_def)
  then show ?thesis
    unfolding boot_def by (rule inv_controlsEffect)
qed

text \<open>
  The guards of \<open>startRecording\<close> and \<open>stopRecording\<close> test the state their closure has
  seen: a closure that has seen \<open>recording\<close> does not start, one that has seen anything
  else does not stop, whatever the current state is.
\<close>

lemma guards_test_the_seen_state:
  "startRecording ''recording'' a = a" "seen \<noteq> ''recording'' \<Longrightarrow> stopRecording seen a = a"
  by (simp_all add: startRecording_def stopRecording_def)

text \<open>Evaluating a run of events from the mounted component.\<close>

lemmas trace_defs = boot_browser thenRender_def rerender_def controlsEffect_def installControls_def
  removeControls_def clickRecord_def startRecording_def startRecording_granted_def
  startRecording_rejected_def startRecording_catch_def stopRecording_def ondataavailable_def
  onstop_def callObject_def controls_def Let_def

text \<open>
  The stream need not be held while processing. When the user ends the sharing, the
  recorder stops by itself and \<open>onstop\<close> brings the state back to \<open>idle\<close>, leaving
  \<open>mediaRecorderRef\<close> set. A \<open>stopRecording\<close> of the control object built while recording,
  called by the host after that, passes its guard and sets \<open>processing\<close>: the stream
  reference is null, and no recorder is left to call \<open>onstop\<close>.
\<close>

lemma processing_without_stream:
  "map_option recordingState
     (run [ClickRecord, CaptureGranted Started, RecorderStopped 0,
           HostCall \<lparr>identity = 1, rendered = ''recording''\<rparr> ''stopRecording'' []]
        (boot (browser True))) = Some ''processing''"
  "map_option screenStreamRef
     (run [ClickRecord, CaptureGranted Started, RecorderStopped 0,
           HostCall \<lparr>identity = 1, rendered = ''recording''\<rparr> ''stopRecording'' []]
        (boot (browser True))) = Some None"
  "map_option activeRecorders
     (run [ClickRecord, CaptureGranted Started, RecorderStopped 0,
           HostCall \<lparr>identity = 1, rendered = ''recording''\<rparr> ''stopRecording'' []]
        (boot (browser True))) = Some []"
  "map_option stoppingRecorders
     (run [ClickRecord, CaptureGranted Started, RecorderStopped 0,
           HostCall \<lparr>identity = 1, rendered = ''recording''\<rparr> ''stopRecording'' []]
        (boot (browser True))) = Some []"
  by (simp_all add: trace_defs)

subsection \<open>Claims about the particle pool\<close>

text \<open>
  C3. In every state the mounted component can reach, whatever the sequence of pointer
  moves, frames and other events, the pool holds at most \<open>MAX_POINTS = 48\<close> points. A
  pointer move appends the new point; when the pool already holds 48 points the oldest
  one (the head of the list) is dropped. A pointer move and a frame keep the bound.
\<close>

theorem pool_length_at_most_MAX_POINTS:
  assumes "run events (boot b) = Some a"
  shows "length (pointsRef a) \<le> 48
       \<and> (isActive a \<longrightarrow>
            pointsRef (handleMouseMove e r a) =
              (if length (pointsRef a) = 48 then tl (pointsRef a) else pointsRef a) @
              [\<lparr>px = clientX e, py = clientY e, life = 1, seed = r * pi * 2\<rparr>])
       \<and> length (pointsRef (handleMouseMove e r a)) \<le> 48
       \<and> length (pointsRef (render a)) \<le> 48"
proof -
  have bound: "length (pointsRef a) \<le> MAX_POINTS"
    using assms run_pool [of events "boot b" a] by (simp add: pointsRef_boot)
  have move: "length (pointsRef (handleMouseMove e r a)) \<le> MAX_POINTS"
    using bound by (rule handleMouseMove_length)
  have frame: "length (pointsRef (render a)) \<le> MAX_POINTS"
    using bound length_advance [of "fadeSpeed a" "pointsRef a"] by (simp add: pointsRef_render)
  have fifo: "isActive a \<longrightarrow>
            pointsRef (handleMouseMove e r a) =
              (if length (pointsRef a) = 48 then tl (pointsRef a) else pointsRef a) @
              [\<lparr>px = clientX e, py = clientY e, life = 1, seed = r * pi * 2\<rparr>]"
    using bound by (cases "pointsRef a") (auto simp add: handleMouseMove_def MAX_POINTS_def Let_def)
  from bound move frame fifo show ?thesis by (simp add: MAX_POINTS_def)
qed

theorem pool_length_at_most_MAX_POINTS_witness:
  "run (replicate 48 (MouseMove \<lparr>clientX = 3, clientY = 4\<rparr> 0)) (boot (browser True)) =
     Some ((boot (browser True))\<lparr>pointsRef := replicate 48 \<lparr>px = 3, py = 4, life = 1, seed = 0\<rparr>\<rparr>)
   \<and> isActive ((boot (browser True))\<lparr>pointsRef := replicate 48 \<lparr>px = 3, py = 4, life = 1, seed = 0\<rparr>\<rparr>)
   \<and> length (pointsRef ((boot (browser True))\<lparr>pointsRef := replicate 48 \<lparr>px = 3, py = 4, life = 1, seed = 0\<rparr>\<rparr>)) = 48
   \<and> pointsRef (handleMouseMove \<lparr>clientX = 5, clientY = 6\<rparr> 0
         ((boot (browser True))\<lparr>pointsRef := replicate 48 \<lparr>px = 3, py = 4, life = 1, seed = 0\<rparr>\<rparr>)) =
       replicate 47 \<lparr>px = 3, py = 4, life = 1, seed = 0\<rparr> @ [\<lparr>px = 5, py = 6, life = 1, seed = 0\<rparr>]
   \<and> length (pointsRef (handleMouseMove \<lparr>clientX = 5, clientY = 6\<rparr> 0
         ((boot (browser True))\<lparr>pointsRef := replicate 48 \<lparr>px = 3, py = 4, life = 1, seed = 0\<rparr>\<rparr>))) \<le> 48"
proof -
  let ?full = "(boot (browser True))\<lparr>pointsRef := replicate 48 \<lparr>px = 3, py = 4, life = 1, seed = 0\<rparr>\<rparr>"
  have r: "run (replicate 48 (MouseMove \<lparr>clientX = 3, clientY = 4\<rparr> 0)) (boot (browser True)) = Some ?full"
    using moves_fill_pool [of "boot (browser True)" 48 0 "\<lparr>clientX = 3, clientY = 4\<rparr>"]
    by (simp add: boot_browser MAX_POINTS_def)
  have i: "isActive ?full" "length (pointsRef ?full) = 48"
    by (simp_all add: boot_browser)
  show ?thesis
    using r i pool_length_at_most_MAX_POINTS [OF r, of "\<lparr>clientX = 5, clientY = 6\<rparr>" 0]
    by simp
qed

text \<open>
  C4. One frame of \<open>render\<close> leaves in the pool exactly \<open>advance fadeSpeed\<close> of the pool
  before it: every point's life is lowered by \<open>fadeSpeed / 1000\<close>, the points whose new
  life is at most zero are dropped, the others stay in their order; the survivors are
  what is drawn, in that order, after the canvas is cleared.
\<close>

theorem render_advances_pool:
  "pointsRef (render a) = advance (fadeSpeed a) (pointsRef a)
   \<and> canvas (render a) =
       ClearRect # concat (map (\<lambda>p. drawPoint p \<lparr>style = trailStyle a, color = trailColor a, size = trailSize a\<rparr>)
                               (advance (fadeSpeed a) (pointsRef a)))
   \<and> advance (fadeSpeed a) (pointsRef a) =
       map (\<lambda>p. p\<lparr>life := life p - fadeSpeed a / 1000\<rparr>)
           (filter (\<lambda>p. 0 < life p - fadeSpeed a / 1000) (pointsRef a))"
  by (simp add: pointsRef_render canvas_render advance_def filter_map comp_def not_le)

text \<open>
  C5. With \<open>fadeSpeed = 55\<close>, a point of life 1 anywhere in the pool is still in the pool,
  with positive life \<open>1 - k * 55 / 1000\<close>, after \<open>k\<close> frames for every \<open>k \<le> 18\<close>, and is
  gone after the 19th frame; the points before and after it fade independently.
\<close>

theorem fade_55_gone_at_step_19:
  assumes "fadeSpeed a = 55" and "pointsRef a = older @ [p] @ newer" and "life p = 1"
  shows "(\<forall>k\<le>18. pointsRef ((render ^^ k) a) =
                    (advance 55 ^^ k) older @ [p\<lparr>life := 1 - real k * (55 / 1000)\<rparr>] @
                    (advance 55 ^^ k) newer
                 \<and> 0 < 1 - real k * (55 / 1000))
       \<and> pointsRef ((render ^^ 19) a) = (advance 55 ^^ 19) older @ (advance 55 ^^ 19) newer"
proof -
  have alive: "(advance 55 ^^ k) [p] = [p\<lparr>life := 1 - real k * (55 / 1000)\<rparr>]
               \<and> 0 < 1 - real k * (55 / 1000)" if "k \<le> 18" for k
  proof -
    from that have "real k \<le> 18" by simp
    then have pos: "0 < life p - real k * (55 / 1000)" using assms(3) by simp
    from advance_pow_alive [OF pos] pos show ?thesis using assms(3) by simp
  qed
  have "(advance 55 ^^ 19) [p] = advance 55 ((advance 55 ^^ 18) [p])"
    by (simp add: numeral_eq_Suc)
  also have "\<dots> = advance 55 [p\<lparr>life := 1 - real 18 * (55 / 1000)\<rparr>]"
    using alive [of 18] by simp
  also have "\<dots> = []"
    by (simp add: advance_def)
  finally have dead: "(advance 55 ^^ 19) [p] = []" .
  have split: "pointsRef ((render ^^ k) a) =
      (advance 55 ^^ k) older @ (advance 55 ^^ k) [p] @ (advance 55 ^^ k) newer" for k
  proof -
    have "pointsRef ((render ^^ k) a) = (advance 55 ^^ k) (older @ ([p] @ newer))"
      using assms(1,2) by (simp add: pointsRef_render_pow)
    then show ?thesis by (simp only: advance_pow_append)
  qed
  show ?thesis
    using alive dead by (simp add: split)
qed

theorem fade_55_gone_at_step_19_witness:
  "fadeSpeed (handleMouseMove \<lparr>clientX = 3, clientY = 4\<rparr> 0 (boot (browser True))) = 55
   \<and> pointsRef (handleMouseMove \<lparr>clientX = 3, clientY = 4\<rparr> 0 (boot (browser True))) =
       [] @ [\<lparr>px = 3, py = 4, life = 1, seed = 0\<rparr>] @ []
   \<and> life \<lparr>px = 3, py = 4, life = 1, seed = 0\<rparr> = 1
   \<and> (18::nat) \<le> 18
   \<and> pointsRef ((render ^^ 18) (handleMouseMove \<lparr>clientX = 3, clientY = 4\<rparr> 0 (boot (browser True)))) =
       [\<lparr>px = 3, py = 4, life = 1 / 100, seed = 0\<rparr>]
   \<and> pointsRef ((render ^^ 19) (handleMouseMove \<lparr>clientX = 3, clientY = 4\<rparr> 0 (boot (browser True)))) = []"
proof -
  let ?a = "handleMouseMove \<lparr>clientX = 3, clientY = 4\<rparr> 0 (boot (browser True))"
  have f: "fadeSpeed ?a = 55"
    by (simp add: handleMouseMove_def boot_browser Let_def)
  have p: "pointsRef ?a = [] @ [\<lparr>px = 3, py = 4, life = 1, seed = 0\<rparr>] @ []"
    by (simp add: handleMouseMove_def boot_browser Let_def MAX_POINTS_def)
  have l: "life \<lparr>px = 3, py = 4, life = 1, seed = 0\<rparr> = 1"
    by simp
  show ?thesis
    using f p l fade_55_gone_at_step_19 [OF f p l] by (simp add: advance_pow_Nil)
qed

subsection \<open>Claims about the style renderer\<close>

text \<open>
  C9. With the star style, \<open>drawPoint\<close> traces one path: a \<open>moveTo\<close> and nine \<open>lineTo\<close>
  through the ten vertices \<open>star_vertex 0 .. 9\<close>, then \<open>closePath\<close> and \<open>fill\<close>. The
  vertices alternate between the outer radius and \<open>0.45\<close> of it, starting with an outer
  vertex at angle \<open>-\<pi>/2\<close>. The radius is \<open>size * max life 0\<close>, which is \<open>size * life\<close> for
  every point whose life is not negative (every point \<open>render\<close> draws); for such a point
  and a size that is not negative, the outer vertices are at distance \<open>size * life\<close> from
  the point and the inner ones at \<open>0.45\<close> of it.
\<close>

theorem star_is_ten_vertex_polygon:
  assumes "style opts = ''star''"
  shows "drawPoint p opts =
           [Save, FillStyle (Rgba (color opts) (max (life p) 0)), BeginPath,
            MoveTo (fst (star_vertex (px p) (py p) (size opts * max (life p) 0) 0))
                   (snd (star_vertex (px p) (py p) (size opts * max (life p) 0) 0))] @
           map (\<lambda>k. LineTo (fst (star_vertex (px p) (py p) (size opts * max (life p) 0) k))
                            (snd (star_vertex (px p) (py p) (size opts * max (life p) 0) k)))
               [1, 2, 3, 4, 5, 6, 7, 8, 9] @
           [ClosePath, Fill, Restore]
       \<and> vertices (drawPoint p opts) =
           map (star_vertex (px p) (py p) (size opts * max (life p) 0)) [0, 1, 2, 3, 4, 5, 6, 7, 8, 9]
       \<and> length (vertices (drawPoint p opts)) = 10
       \<and> (0 \<le> life p \<longrightarrow> size opts * max (life p) 0 = size opts * life p)
       \<and> (0 \<le> life p \<and> 0 \<le> size opts \<longrightarrow>
            (\<forall>k. distance (px p, py p) (star_vertex (px p) (py p) (size opts * max (life p) 0) k) =
                   (if even k then size opts * life p else 0.45 * (size opts * life p))))"
proof -
  let ?r = "size opts * max (life p) 0"
  have calls: "drawPoint p opts =
           [Save, FillStyle (Rgba (color opts) (max (life p) 0)), BeginPath,
            MoveTo (fst (star_vertex (px p) (py p) ?r 0)) (snd (star_vertex (px p) (py p) ?r 0))] @
           map (\<lambda>k. LineTo (fst (star_vertex (px p) (py p) ?r k)) (snd (star_vertex (px p) (py p) ?r k)))
               [1, 2, 3, 4, 5, 6, 7, 8, 9] @
           [ClosePath, Fill, Restore]"
    using assms by (simp add: drawPoint_def Let_def star_spikes_5 del: star_spikes.simps)
  have verts: "vertices (drawPoint p opts) =
           map (star_vertex (px p) (py p) ?r) [0, 1, 2, 3, 4, 5, 6, 7, 8, 9]"
    by (simp add: calls)
  have radius: "0 \<le> life p \<longrightarrow> ?r = size opts * life p"
    by (simp add: max_def)
  have dist: "0 \<le> life p \<and> 0 \<le> size opts \<longrightarrow>
            (\<forall>k. distance (px p, py p) (star_vertex (px p) (py p) ?r k) =
                   (if even k then size opts * life p else 0.45 * (size opts * life p)))"
    by (simp add: distance_star_vertex max_def abs_mult)
  from calls verts radius dist show ?thesis
    by simp
qed

theorem star_is_ten_vertex_polygon_witness:
  "style \<lparr>style = ''star'', color = ''#8B5CF6'', size = 20\<rparr> = ''star''
   \<and> (0::real) \<le> 1 / 2 \<and> (0::real) \<le> 20
   \<and> length (vertices (drawPoint \<lparr>px = 0, py = 0, life = 1 / 2, seed = 0\<rparr>
                                   \<lparr>style = ''star'', color = ''#8B5CF6'', size = 20\<rparr>)) = 10
   \<and> distance (0, 0) (star_vertex 0 0 10 0) = 10
   \<and> distance (0, 0) (star_vertex 0 0 10 1) = 9 / 2"
proof -
  have s: "style \<lparr>style = ''star'', color = ''#8B5CF6'', size = 20\<rparr> = ''star''"
    by simp
  show ?thesis
    using s star_is_ten_vertex_polygon [OF s, of "\<lparr>px = 0, py = 0, life = 1 / 2, seed = 0\<rparr>"]
    by simp
qed

subsection \<open>Claims about presets and manual changes\<close>

text \<open>
  C6. Applying a preset (by its button, by its digit key, or by the host's
  \<open>applyPreset(id)\<close>) sets style, colour, size and fade rate to the preset's values in one
  step and sets the active preset id to the preset's id. A manual change of style (style
  button), colour (colour button) or size (slider, or the keys \<open>[\<close> and \<open>]\<close>, which
  clamp at 12 and 60) sets the active preset id to null. Toggling the active flag (the
  button, the key \<open>t\<close> or \<open>T\<close>, or the host's \<open>toggle()\<close>) flips the flag and leaves the
  active preset id as it was.
\<close>

theorem preset_sets_config_and_manual_change_clears_id:
  "trailStyle (applyPreset (Some p) a) = pstyle (config p)
   \<and> trailColor (applyPreset (Some p) a) = pcolor (config p)
   \<and> trailSize (applyPreset (Some p) a) = psize (config p)
   \<and> fadeSpeed (applyPreset (Some p) a) = pfade (config p)
   \<and> activePresetId (applyPreset (Some p) a) = Some (pid p)
   \<and> (p \<in> set PRESET_COMBOS \<longrightarrow> step (ClickPreset p) a = Some (applyPreset (Some p) a))
   \<and> (p \<in> set PRESET_COMBOS \<and> key digit = shortcut p \<and> dispatched digit
        \<longrightarrow> handler digit a = applyPreset (Some p) a)
   \<and> (p \<in> set PRESET_COMBOS \<and> cursorTrailControls a \<noteq> None
        \<longrightarrow> callControl ''applyPreset'' (pid p) a = Inr (applyPreset (Some p) a))
   \<and> trailStyle (clickStyle s a) = s \<and> activePresetId (clickStyle s a) = None
   \<and> trailColor (clickColor c a) = c \<and> activePresetId (clickColor c a) = None
   \<and> trailSize (changeSize v a) = v \<and> activePresetId (changeSize v a) = None
   \<and> (key smaller = ''['' \<and> dispatched smaller
        \<longrightarrow> trailSize (handler smaller a) = max 12 (trailSize a - 2)
          \<and> activePresetId (handler smaller a) = None)
   \<and> (key larger = '']'' \<and> dispatched larger
        \<longrightarrow> trailSize (handler larger a) = min 60 (trailSize a + 2)
          \<and> activePresetId (handler larger a) = None)
   \<and> isActive (clickToggle a) = (\<not> isActive a) \<and> activePresetId (clickToggle a) = activePresetId a
   \<and> (toLowerCase (key toggle) = ''t'' \<and> dispatched toggle
        \<longrightarrow> isActive (handler toggle a) = (\<not> isActive a)
          \<and> activePresetId (handler toggle a) = activePresetId a)
   \<and> (cursorTrailControls a \<noteq> None
        \<longrightarrow> callControl ''toggle'' arg a = Inr (a\<lparr>isActive := \<not> isActive a\<rparr>))"
proof -
  have preset: "trailStyle (applyPreset (Some p) a) = pstyle (config p)
   \<and> trailColor (applyPreset (Some p) a) = pcolor (config p)
   \<and> trailSize (applyPreset (Some p) a) = psize (config p)
   \<and> fadeSpeed (applyPreset (Some p) a) = pfade (config p)
   \<and> activePresetId (applyPreset (Some p) a) = Some (pid p)"
    by (simp add: applyPreset_def)
  have click: "p \<in> set PRESET_COMBOS \<longrightarrow> step (ClickPreset p) a = Some (applyPreset (Some p) a)"
    by simp
  have digit: "p \<in> set PRESET_COMBOS \<and> key digit = shortcut p \<and> dispatched digit
        \<longrightarrow> handler digit a = applyPreset (Some p) a"
    using handler_shortcut [of p digit a] by blast
  have host: "p \<in> set PRESET_COMBOS \<and> cursorTrailControls a \<noteq> None
        \<longrightarrow> callControl ''applyPreset'' (pid p) a = Inr (applyPreset (Some p) a)"
    by (auto simp add: callControl_def callObject_def controls_def find_pid)
  have manual: "trailStyle (clickStyle s a) = s \<and> activePresetId (clickStyle s a) = None
   \<and> trailColor (clickColor c a) = c \<and> activePresetId (clickColor c a) = None
   \<and> trailSize (changeSize v a) = v \<and> activePresetId (changeSize v a) = None"
    by (simp add: clickStyle_def clickColor_def changeSize_def)
  have smaller: "key smaller = ''['' \<and> dispatched smaller
        \<longrightarrow> trailSize (handler smaller a) = max 12 (trailSize a - 2)
          \<and> activePresetId (handler smaller a) = None"
    by (simp add: handler_def dispatched_def toLowerCase_def)
  have larger: "key larger = '']'' \<and> dispatched larger
        \<longrightarrow> trailSize (handler larger a) = min 60 (trailSize a + 2)
          \<and> activePresetId (handler larger a) = None"
    by (simp add: handler_def dispatched_def toLowerCase_def)
  have toggle: "isActive (clickToggle a) = (\<not> isActive a) \<and> activePresetId (clickToggle a) = activePresetId a"
    by (simp add: clickToggle_def)
  have t_key: "toLowerCase (key toggle) = ''t'' \<and> dispatched toggle
        \<longrightarrow> isActive (handler toggle a) = (\<not> isActive a)
          \<and> activePresetId (handler toggle a) = activePresetId a"
    by (simp add: handler_def dispatched_def)
  have t_host: "cursorTrailControls a \<noteq> None
        \<longrightarrow> callControl ''toggle'' arg a = Inr (a\<lparr>isActive := \<not> isActive a\<rparr>)"
    by (auto simp add: callControl_def callObject_def controls_def)
  from preset click digit host manual smaller larger toggle t_key t_host
  show ?thesis
    by (elim conjE, intro conjI) assumption+
qed

theorem preset_sets_config_and_manual_change_clears_id_witness:
  "signature_cyan \<in> set PRESET_COMBOS
   \<and> key \<lparr>metaKey = False, ctrlKey = False, altKey = False, tagName = ''BODY'', key = ''2''\<rparr> =
       shortcut signature_cyan
   \<and> dispatched \<lparr>metaKey = False, ctrlKey = False, altKey = False, tagName = ''BODY'', key = ''2''\<rparr>
   \<and> cursorTrailControls (applyPreset (Some signature_cyan) (boot (browser True))) \<noteq> None
   \<and> key \<lparr>metaKey = False, ctrlKey = False, altKey = False, tagName = ''BODY'', key = ''[''\<rparr> = ''[''
   \<and> dispatched \<lparr>metaKey = False, ctrlKey = False, altKey = False, tagName = ''BODY'', key = ''[''\<rparr>
   \<and> key \<lparr>metaKey = False, ctrlKey = False, altKey = False, tagName = ''BODY'', key = '']''\<rparr> = '']''
   \<and> dispatched \<lparr>metaKey = False, ctrlKey = False, altKey = False, tagName = ''BODY'', key = '']''\<rparr>
   \<and> toLowerCase (key \<lparr>metaKey = False, ctrlKey = False, altKey = False, tagName = ''BODY'', key = ''T''\<rparr>) = ''t''
   \<and> dispatched \<lparr>metaKey = False, ctrlKey = False, altKey = False, tagName = ''BODY'', key = ''T''\<rparr>
   \<and> activePresetId (applyPreset (Some signature_cyan) (boot (browser True))) = Some ''signature-cyan''
   \<and> trailSize (applyPreset (Some signature_cyan) (boot (browser True))) = 32
   \<and> trailSize (handler \<lparr>metaKey = False, ctrlKey = False, altKey = False, tagName = ''BODY'', key = ''[''\<rparr>
                   (applyPreset (Some signature_cyan) (boot (browser True)))) = 30
   \<and> activePresetId (handler \<lparr>metaKey = False, ctrlKey = False, altKey = False, tagName = ''BODY'', key = ''[''\<rparr>
                   (applyPreset (Some signature_cyan) (boot (browser True)))) = None
   \<and> activePresetId (handler \<lparr>metaKey = False, ctrlKey = False, altKey = False, tagName = ''BODY'', key = ''T''\<rparr>
                   (applyPreset (Some signature_cyan) (boot (browser True)))) = Some ''signature-cyan''"
proof -
  let ?a = "applyPreset (Some signature_cyan) (boot (browser True))"
  have a: "activePresetId ?a = Some ''signature-cyan''" "trailSize ?a = 32"
    "cursorTrailControls ?a \<noteq> None"
    using boot_installed [of "browser True"]
    by (simp_all add: applyPreset_def signature_cyan_def)
  have p: "signature_cyan \<in> set PRESET_COMBOS"
    by (simp add: PRESET_COMBOS_def)
  show ?thesis
    using a p
      preset_sets_config_and_manual_change_clears_id [of signature_cyan ?a
        "\<lparr>metaKey = False, ctrlKey = False, altKey = False, tagName = ''BODY'', key = ''2''\<rparr>"
        _ _ _
        "\<lparr>metaKey = False, ctrlKey = False, altKey = False, tagName = ''BODY'', key = ''[''\<rparr>"
        "\<lparr>metaKey = False, ctrlKey = False, altKey = False, tagName = ''BODY'', key = '']''\<rparr>"
        "\<lparr>metaKey = False, ctrlKey = False, altKey = False, tagName = ''BODY'', key = ''T''\<rparr>"]
    by (simp add: shortcuts dispatched_def toLowerCase_def)
qed

subsection \<open>Claims about settings persistence\<close>

text \<open>
  C7. Saving the payload \<open>{isActive: false, trailStyle: "glow", trailColor: "#3B82F6",
  trailSize: 40, fadeSpeed: 30, activePresetId: null}\<close> and loading it in a freshly
  mounted component gives back exactly these six values; the same holds for the settings
  of any hydrated state. For every stored document, each of the six settings is loaded
  on its own: it takes the stored value when the stored field has the expected type,
  and keeps its default (\<open>true\<close>, \<open>gradient\<close>, \<open>#8B5CF6\<close>, 22, 55, null) otherwise, whatever
  the other fields hold. With nothing stored, or a text that does not parse, every
  setting keeps its default.
\<close>

theorem settings_round_trip_and_field_fallback:
  "(let saved = saveSettings
                  ((mount b)\<lparr>isActive := False, trailStyle := ''glow'', trailColor := ''#3B82F6'',
                             trailSize := 40, fadeSpeed := 30, activePresetId := None,
                             settingsHydrated := True\<rparr>);
        loaded = loadSettings (mount saved)
    in localStorage saved STORAGE_KEY =
         Some (Document (JObj [(''isActive'', JBool False), (''trailStyle'', JStr ''glow''),
                               (''trailColor'', JStr ''#3B82F6''), (''trailSize'', JNum 40),
                               (''fadeSpeed'', JNum 30), (''activePresetId'', JNull)]))
       \<and> isActive loaded = False \<and> trailStyle loaded = ''glow''
       \<and> trailColor loaded = ''#3B82F6'' \<and> trailSize loaded = 40 \<and> fadeSpeed loaded = 30
       \<and> activePresetId loaded = None \<and> settingsHydrated loaded)
   \<and> (settingsHydrated s \<longrightarrow>
        (let loaded = loadSettings (mount (saveSettings s))
         in isActive loaded = isActive s \<and> trailStyle loaded = trailStyle s
            \<and> trailColor loaded = trailColor s \<and> trailSize loaded = trailSize s
            \<and> fadeSpeed loaded = fadeSpeed s \<and> activePresetId loaded = activePresetId s))
   \<and> (localStorage b STORAGE_KEY = Some (Document parsed) \<longrightarrow>
        (let loaded = loadSettings (mount b)
         in isActive loaded = (case boolean_of (property parsed ''isActive'') of
                                 Some v \<Rightarrow> v | None \<Rightarrow> True)
            \<and> trailStyle loaded = (case string_of (property parsed ''trailStyle'') of
                                 Some v \<Rightarrow> v | None \<Rightarrow> ''gradient'')
            \<and> trailColor loaded = (case string_of (property parsed ''trailColor'') of
                                 Some v \<Rightarrow> v | None \<Rightarrow> ''#8B5CF6'')
            \<and> trailSize loaded = (case number_of (property parsed ''trailSize'') of
                                 Some v \<Rightarrow> v | None \<Rightarrow> 22)
            \<and> fadeSpeed loaded = (case number_of (property parsed ''fadeSpeed'') of
                                 Some v \<Rightarrow> v | None \<Rightarrow> 55)
            \<and> activePresetId loaded = string_of (property parsed ''activePresetId'')
            \<and> settingsHydrated loaded))
   \<and> (localStorage c STORAGE_KEY = None \<or> localStorage c STORAGE_KEY = Some (Invalid garbage) \<longrightarrow>
        loadSettings (mount c) = (mount c)\<lparr>settingsHydrated := True\<rparr>)"
proof -
  let ?s = "(mount b)\<lparr>isActive := False, trailStyle := ''glow'', trailColor := ''#3B82F6'',
                             trailSize := 40, fadeSpeed := 30, activePresetId := None,
                             settingsHydrated := True\<rparr>"
  have h: "settingsHydrated ?s" by simp
  have stored: "localStorage (saveSettings ?s) STORAGE_KEY =
         Some (Document (JObj [(''isActive'', JBool False), (''trailStyle'', JStr ''glow''),
                               (''trailColor'', JStr ''#3B82F6''), (''trailSize'', JNum 40),
                               (''fadeSpeed'', JNum 30), (''activePresetId'', JNull)]))"
    by (simp add: saveSettings_def payload_def)
  have hydrated: "settingsHydrated (loadSettings x)" for x
    by (simp add: loadSettings_def)
  have example: "(let saved = saveSettings ?s; loaded = loadSettings (mount saved)
    in localStorage saved STORAGE_KEY =
         Some (Document (JObj [(''isActive'', JBool False), (''trailStyle'', JStr ''glow''),
                               (''trailColor'', JStr ''#3B82F6''), (''trailSize'', JNum 40),
                               (''fadeSpeed'', JNum 30), (''activePresetId'', JNull)]))
       \<and> isActive loaded = False \<and> trailStyle loaded = ''glow''
       \<and> trailColor loaded = ''#3B82F6'' \<and> trailSize loaded = 40 \<and> fadeSpeed loaded = 30
       \<and> activePresetId loaded = None \<and> settingsHydrated loaded)"
    unfolding Let_def using stored round_trip [OF h] hydrated by simp
  have general: "settingsHydrated s \<longrightarrow>
        (let loaded = loadSettings (mount (saveSettings s))
         in isActive loaded = isActive s \<and> trailStyle loaded = trailStyle s
            \<and> trailColor loaded = trailColor s \<and> trailSize loaded = trailSize s
            \<and> fadeSpeed loaded = fadeSpeed s \<and> activePresetId loaded = activePresetId s)"
    unfolding Let_def using round_trip [of s] by simp
  have fields: "localStorage b STORAGE_KEY = Some (Document parsed) \<longrightarrow>
        (let loaded = loadSettings (mount b)
         in isActive loaded = (case boolean_of (property parsed ''isActive'') of
                                 Some v \<Rightarrow> v | None \<Rightarrow> True)
            \<and> trailStyle loaded = (case string_of (property parsed ''trailStyle'') of
                                 Some v \<Rightarrow> v | None \<Rightarrow> ''gradient'')
            \<and> trailColor loaded = (case string_of (property parsed ''trailColor'') of
                                 Some v \<Rightarrow> v | None \<Rightarrow> ''#8B5CF6'')
            \<and> trailSize loaded = (case number_of (property parsed ''trailSize'') of
                                 Some v \<Rightarrow> v | None \<Rightarrow> 22)
            \<and> fadeSpeed loaded = (case number_of (property parsed ''fadeSpeed'') of
                                 Some v \<Rightarrow> v | None \<Rightarrow> 55)
            \<and> activePresetId loaded = string_of (property parsed ''activePresetId'')
            \<and> settingsHydrated loaded)"
  proof
    assume "localStorage b STORAGE_KEY = Some (Document parsed)"
    then have "localStorage (mount b) STORAGE_KEY = Some (Document parsed)"
      by (simp add: mount_defaults)
    from loadSettings_Document [OF this] show "let loaded = loadSettings (mount b)
         in isActive loaded = (case boolean_of (property parsed ''isActive'') of
                                 Some v \<Rightarrow> v | None \<Rightarrow> True)
            \<and> trailStyle loaded = (case string_of (property parsed ''trailStyle'') of
                                 Some v \<Rightarrow> v | None \<Rightarrow> ''gradient'')
            \<and> trailColor loaded = (case string_of (property parsed ''trailColor'') of
                                 Some v \<Rightarrow> v | None \<Rightarrow> ''#8B5CF6'')
            \<and> trailSize loaded = (case number_of (property parsed ''trailSize'') of
                                 Some v \<Rightarrow> v | None \<Rightarrow> 22)
            \<and> fadeSpeed loaded = (case number_of (property parsed ''fadeSpeed'') of
                                 Some v \<Rightarrow> v | None \<Rightarrow> 55)
            \<and> activePresetId loaded = string_of (property parsed ''activePresetId'')
            \<and> settingsHydrated loaded"
      by (simp add: Let_def mount_defaults split: option.split)
  qed
  have missing: "localStorage c STORAGE_KEY = None \<or> localStorage c STORAGE_KEY = Some (Invalid garbage) \<longrightarrow>
        loadSettings (mount c) = (mount c)\<lparr>settingsHydrated := True\<rparr>"
    using loadSettings_no_document [of "mount c" garbage] by (simp add: mount_defaults)
  from example general fields missing show ?thesis
    by (intro conjI) assumption+
qed


theorem settings_round_trip_and_field_fallback_witness:
  "settingsHydrated ((mount (browser True))\<lparr>settingsHydrated := True\<rparr>)
   \<and> localStorage
        ((browser True)\<lparr>localStorage := [STORAGE_KEY \<mapsto> Document (JObj
           [(''isActive'', JBool False), (''trailStyle'', JStr ''glow''),
            (''trailColor'', JStr ''#3B82F6''), (''trailSize'', JStr ''forty''),
            (''fadeSpeed'', JNum 30), (''activePresetId'', JNull)])]\<rparr>) STORAGE_KEY =
       Some (Document (JObj
           [(''isActive'', JBool False), (''trailStyle'', JStr ''glow''),
            (''trailColor'', JStr ''#3B82F6''), (''trailSize'', JStr ''forty''),
            (''fadeSpeed'', JNum 30), (''activePresetId'', JNull)]))
   \<and> localStorage (browser True) STORAGE_KEY = None
   \<and> (let loaded = loadSettings (mount
          ((browser True)\<lparr>localStorage := [STORAGE_KEY \<mapsto> Document (JObj
           [(''isActive'', JBool False), (''trailStyle'', JStr ''glow''),
            (''trailColor'', JStr ''#3B82F6''), (''trailSize'', JStr ''forty''),
            (''fadeSpeed'', JNum 30), (''activePresetId'', JNull)])]\<rparr>))
        in isActive loaded = False \<and> trailStyle loaded = ''glow'' \<and> trailColor loaded = ''#3B82F6''
           \<and> trailSize loaded = 22 \<and> fadeSpeed loaded = 30 \<and> activePresetId loaded = None)
   \<and> settingsHydrated (loadSettings (mount (browser True)))"
proof -
  let ?doc = "JObj
           [(''isActive'', JBool False), (''trailStyle'', JStr ''glow''),
            (''trailColor'', JStr ''#3B82F6''), (''trailSize'', JStr ''forty''),
            (''fadeSpeed'', JNum 30), (''activePresetId'', JNull)]"
  let ?b = "(browser True)\<lparr>localStorage := [STORAGE_KEY \<mapsto> Document ?doc]\<rparr>"
  have h: "settingsHydrated ((mount (browser True))\<lparr>settingsHydrated := True\<rparr>)"
    by simp
  have d: "localStorage ?b STORAGE_KEY = Some (Document ?doc)"
    by simp
  have n: "localStorage (browser True) STORAGE_KEY = None"
    by (simp add: browser_def)
  show ?thesis
    using h d n
      settings_round_trip_and_field_fallback
        [where b = ?b and s = "(mount (browser True))\<lparr>settingsHydrated := True\<rparr>"
           and parsed = ?doc and c = "browser True"]
    by (simp add: Let_def)
qed

subsection \<open>Claims about the host bridge\<close>

text \<open>
  C8, as the code has it. The control surface object has exactly four properties, named
  \<open>toggle\<close>, \<open>applyPreset\<close>, \<open>startRecording\<close> and \<open>stopRecording\<close>, whichever render built
  it: they flip the active flag, apply the preset with the given id (nothing for an
  unknown id), and call the \<open>startRecording\<close> and \<open>stopRecording\<close> of the render that built
  the object; a call of any other name throws. The cleanup of an effect run removes the
  installed object when it is the object that run installed, and leaves the window
  untouched otherwise: after two installations, the cleanup of the first leaves the
  second object installed.
\<close>

theorem control_surface_entries_and_guarded_removal:
  "map fst (controls seen) = [''toggle'', ''applyPreset'', ''startRecording'', ''stopRecording'']
   \<and> (cursorTrailControls a = Some object \<longrightarrow>
        callControl ''toggle'' arg a = Inr (clickToggle a)
        \<and> callControl ''applyPreset'' arg a =
            Inr (applyPreset (find (\<lambda>combo. pid combo = arg) PRESET_COMBOS) a)
        \<and> callControl ''startRecording'' arg a = Inr (startRecording (rendered object) a)
        \<and> callControl ''stopRecording'' arg a = Inr (stopRecording (rendered object) a))
   \<and> (name \<notin> set [''toggle'', ''applyPreset'', ''startRecording'', ''stopRecording'']
        \<longrightarrow> callControl name arg a = Inl TypeError)
   \<and> (cursorTrailControls w = Some mine \<longrightarrow> cursorTrailControls (removeControls mine w) = None)
   \<and> (cursorTrailControls v \<noteq> Some older \<longrightarrow> removeControls older v = v)
   \<and> (let first = installControls u; second = installControls (snd first)
       in fst first \<noteq> fst second
          \<and> cursorTrailControls (snd second) = Some (fst second)
          \<and> removeControls (fst first) (snd second) = snd second
          \<and> cursorTrailControls (removeControls (fst second) (snd second)) = None)"
proof -
  have names: "map fst (controls seen) =
      [''toggle'', ''applyPreset'', ''startRecording'', ''stopRecording'']"
    by (simp add: controls_def)
  have entries: "cursorTrailControls a = Some object \<longrightarrow>
        callControl ''toggle'' arg a = Inr (clickToggle a)
        \<and> callControl ''applyPreset'' arg a =
            Inr (applyPreset (find (\<lambda>combo. pid combo = arg) PRESET_COMBOS) a)
        \<and> callControl ''startRecording'' arg a = Inr (startRecording (rendered object) a)
        \<and> callControl ''stopRecording'' arg a = Inr (stopRecording (rendered object) a)"
    by (simp add: callControl_def callObject_def controls_def clickToggle_def)
  have others: "name \<notin> set [''toggle'', ''applyPreset'', ''startRecording'', ''stopRecording'']
        \<longrightarrow> callControl name arg a = Inl TypeError"
    by (simp add: callControl_def callObject_def controls_def split: option.split)
  have mine: "cursorTrailControls w = Some mine \<longrightarrow> cursorTrailControls (removeControls mine w) = None"
    by (simp add: removeControls_def)
  have theirs: "cursorTrailControls v \<noteq> Some older \<longrightarrow> removeControls older v = v"
    by (simp add: removeControls_def)
  have two: "let first = installControls u; second = installControls (snd first)
       in fst first \<noteq> fst second
          \<and> cursorTrailControls (snd second) = Some (fst second)
          \<and> removeControls (fst first) (snd second) = snd second
          \<and> cursorTrailControls (removeControls (fst second) (snd second)) = None"
    by (simp add: Let_def installControls_fresh removeControls_def)
  from names entries others mine theirs two show ?thesis
    by (intro conjI) assumption+
qed

theorem control_surface_entries_and_guarded_removal_witness:
  "cursorTrailControls (boot (browser True)) = Some \<lparr>identity = 0, rendered = ''idle''\<rparr>
   \<and> ''toggleActive'' \<notin> set [''toggle'', ''applyPreset'', ''startRecording'', ''stopRecording'']
   \<and> cursorTrailControls (snd (installControls (boot (browser True)))) \<noteq>
       Some \<lparr>identity = 0, rendered = ''idle''\<rparr>
   \<and> callControl ''toggleActive'' [] (boot (browser True)) = Inl TypeError
   \<and> callControl ''stopRecording'' [] (boot (browser True)) =
       Inr (stopRecording ''idle'' (boot (browser True)))
   \<and> cursorTrailControls (removeControls \<lparr>identity = 0, rendered = ''idle''\<rparr> (boot (browser True))) = None
   \<and> cursorTrailControls (removeControls \<lparr>identity = 0, rendered = ''idle''\<rparr>
         (snd (installControls (boot (browser True))))) =
       Some \<lparr>identity = 1, rendered = ''idle''\<rparr>"
proof -
  let ?a = "boot (browser True)"
  let ?mine = "\<lparr>identity = 0, rendered = ''idle''\<rparr>"
  have i: "cursorTrailControls ?a = Some ?mine"
    by (simp add: boot_browser)
  have n: "cursorTrailControls (snd (installControls ?a)) \<noteq> Some ?mine"
    "cursorTrailControls (snd (installControls ?a)) = Some \<lparr>identity = 1, rendered = ''idle''\<rparr>"
    by (simp_all add: installControls_fresh boot_browser)
  show ?thesis
    using i n
      control_surface_entries_and_guarded_removal
        [where a = ?a and object = ?mine and arg = "[]" and name = "''toggleActive''"
           and w = ?a and mine = ?mine and v = "snd (installControls ?a)" and older = ?mine]
    by simp
qed

text \<open>
  C8, as the specification words it, names the first entry point \<open>toggleActive\<close>. The
  object has no property of that name: a host calling it gets a \<open>TypeError\<close>, while
  \<open>toggle\<close> flips the flag.
\<close>

theorem control_surface_has_no_toggleActive:
  "''toggleActive'' \<notin> set (map fst (controls ''idle''))
   \<and> callControl ''toggleActive'' [] (boot (browser True)) = Inl TypeError
   \<and> callControl ''toggle'' [] (boot (browser True)) = Inr ((boot (browser True))\<lparr>isActive := False\<rparr>)"
  by (simp add: controls_def callControl_def callObject_def boot_browser)

subsection \<open>Claims about the recording controller\<close>

text \<open>
  C1, as the code has it. In every state the mounted component can reach, also through
  control objects the host has kept: while the session state is \<open>recording\<close> the capture
  stream reference is non-null, while it is \<open>idle\<close> the reference is null, and a
  non-null reference is found only in \<open>recording\<close> and \<open>processing\<close>. The state is always
  one of \<open>idle\<close>, \<open>recording\<close> and \<open>processing\<close>, never \<open>requesting\<close>. In \<open>processing\<close> the
  reference is held until the recorder's \<open>onstop\<close> releases it (and is null when
  \<open>processing\<close> was entered with no stream, as in \<open>processing_without_stream\<close>).
\<close>

theorem stream_held_when_recording_released_when_idle:
  assumes "run events (boot b) = Some a"
  shows "(recordingState a = ''recording'' \<longrightarrow> holdsStream a)
       \<and> (recordingState a = ''idle'' \<longrightarrow> \<not> holdsStream a)
       \<and> (holdsStream a \<longrightarrow> recordingState a = ''recording'' \<or> recordingState a = ''processing'')
       \<and> (recordingState a = ''idle'' \<or> recordingState a = ''recording''
            \<or> recordingState a = ''processing'')
       \<and> recordingState a \<noteq> ''requesting''"
proof -
  have inv: "stream_invariant a"
    using assms inv_boot by (rule run_stream_invariant)
  then have three: "recordingState a = ''idle'' \<or> recordingState a = ''recording''
            \<or> recordingState a = ''processing''"
    by (auto simp add: stream_invariant_def)
  then have no: "recordingState a \<noteq> ''requesting''"
    by auto
  from inv have rec: "recordingState a = ''recording'' \<longrightarrow> holdsStream a"
    by (auto simp add: stream_invariant_def)
  from inv have idle: "recordingState a = ''idle'' \<longrightarrow> \<not> holdsStream a"
    by (auto simp add: stream_invariant_def)
  from three idle have held: "holdsStream a \<longrightarrow>
      recordingState a = ''recording'' \<or> recordingState a = ''processing''"
    by blast
  from rec idle held three no show ?thesis
    by (intro conjI) assumption+
qed

theorem stream_held_when_recording_released_when_idle_witness:
  "run [ClickRecord, CaptureGranted Started] (boot (browser True)) =
     Some (thenRender (startRecording_granted Started) (thenRender clickRecord (boot (browser True))))
   \<and> recordingState
        (thenRender (startRecording_granted Started) (thenRender clickRecord (boot (browser True)))) =
       ''recording''
   \<and> holdsStream
        (thenRender (startRecording_granted Started) (thenRender clickRecord (boot (browser True))))
   \<and> run [] (boot (browser True)) = Some (boot (browser True))
   \<and> recordingState (boot (browser True)) = ''idle''
   \<and> \<not> holdsStream (boot (browser True))"
proof -
  let ?R = "thenRender (startRecording_granted Started) (thenRender clickRecord (boot (browser True)))"
  have r: "run [ClickRecord, CaptureGranted Started] (boot (browser True)) = Some ?R"
    by (simp add: trace_defs)
  have s: "recordingState ?R = ''recording''"
    by (simp add: trace_defs)
  have n: "run [] (boot (browser True)) = Some (boot (browser True))"
    by simp
  have i: "recordingState (boot (browser True)) = ''idle''"
    by (simp add: boot_browser)
  show ?thesis
    using r s n i
      stream_held_when_recording_released_when_idle [OF r]
      stream_held_when_recording_released_when_idle [OF n]
    by simp
qed

text \<open>
  C1, as the specification words it, has the stream reference null in \<open>processing\<close>.
  After a start, a grant and a stop the state is \<open>processing\<close> and the reference still
  holds the stream.
\<close>

theorem stream_still_held_while_processing:
  "run [ClickRecord, CaptureGranted Started, ClickRecord] (boot (browser True)) =
     Some (thenRender clickRecord (thenRender (startRecording_granted Started)
             (thenRender clickRecord (boot (browser True)))))
   \<and> recordingState (thenRender clickRecord (thenRender (startRecording_granted Started)
             (thenRender clickRecord (boot (browser True))))) = ''processing''
   \<and> screenStreamRef (thenRender clickRecord (thenRender (startRecording_granted Started)
             (thenRender clickRecord (boot (browser True))))) = Some 0"
proof -
  have r: "run [ClickRecord, CaptureGranted Started, ClickRecord] (boot (browser True)) =
     Some (thenRender clickRecord (thenRender (startRecording_granted Started)
             (thenRender clickRecord (boot (browser True)))))"
    by (simp add: trace_defs)
  have s: "recordingState (thenRender clickRecord (thenRender (startRecording_granted Started)
             (thenRender clickRecord (boot (browser True))))) = ''processing''"
    "screenStreamRef (thenRender clickRecord (thenRender (startRecording_granted Started)
             (thenRender clickRecord (boot (browser True))))) = Some 0"
    by (simp_all add: trace_defs)
  from r s show ?thesis by simp
qed

text \<open>
  C2. The specification makes \<open>start()\<close> a no-op in every state other than \<open>idle\<close> and
  \<open>stop()\<close> a no-op in every state other than \<open>recording\<close>. The code's guards do not
  cover these states. In \<open>processing\<close>, reached by a start, a grant, a chunk of data and a
  stop, the record button starts again: a capture is requested, and when it is granted
  the chunks of the first recording are dropped and the state is \<open>recording\<close>; the
  \<open>onstop\<close> of the first recorder then publishes an empty recording, clears the
  reference to the second stream and sets \<open>idle\<close>, while the second recorder and its
  stream stay live. Through a control object the host has kept, \<open>startRecording\<close> built
  while idle requests a second capture while the state is \<open>recording\<close>, and
  \<open>stopRecording\<close> built while recording sets \<open>processing\<close> while the state is \<open>idle\<close>.
\<close>

theorem start_while_processing_restarts_the_session:
  "map_option recordingState
     (run [ClickRecord, CaptureGranted Started, DataAvailable 0 [1, 2, 3], ClickRecord]
        (boot (browser True))) = Some ''processing''
   \<and> map_option chunksRef
     (run [ClickRecord, CaptureGranted Started, DataAvailable 0 [1, 2, 3], ClickRecord]
        (boot (browser True))) = Some [[1, 2, 3]]
   \<and> map_option pendingCaptures
     (run [ClickRecord, CaptureGranted Started, DataAvailable 0 [1, 2, 3], ClickRecord]
        (boot (browser True))) = Some 0
   \<and> map_option pendingCaptures
     (run [ClickRecord, CaptureGranted Started, DataAvailable 0 [1, 2, 3], ClickRecord,
           ClickRecord]
        (boot (browser True))) = Some 1
   \<and> map_option recordingState
     (run [ClickRecord, CaptureGranted Started, DataAvailable 0 [1, 2, 3], ClickRecord,
           ClickRecord, CaptureGranted Started]
        (boot (browser True))) = Some ''recording''
   \<and> map_option chunksRef
     (run [ClickRecord, CaptureGranted Started, DataAvailable 0 [1, 2, 3], ClickRecord,
           ClickRecord, CaptureGranted Started]
        (boot (browser True))) = Some []
   \<and> map_option recordingUrl
     (run [ClickRecord, CaptureGranted Started, DataAvailable 0 [1, 2, 3], ClickRecord,
           ClickRecord, CaptureGranted Started, RecorderStopped 0]
        (boot (browser True))) = Some (Some [])
   \<and> map_option recordingState
     (run [ClickRecord, CaptureGranted Started, DataAvailable 0 [1, 2, 3], ClickRecord,
           ClickRecord, CaptureGranted Started, RecorderStopped 0]
        (boot (browser True))) = Some ''idle''
   \<and> map_option screenStreamRef
     (run [ClickRecord, CaptureGranted Started, DataAvailable 0 [1, 2, 3], ClickRecord,
           ClickRecord, CaptureGranted Started, RecorderStopped 0]
        (boot (browser True))) = Some None
   \<and> map_option activeRecorders
     (run [ClickRecord, CaptureGranted Started, DataAvailable 0 [1, 2, 3], ClickRecord,
           ClickRecord, CaptureGranted Started, RecorderStopped 0]
        (boot (browser True))) = Some [1]
   \<and> map_option liveStreams
     (run [ClickRecord, CaptureGranted Started, DataAvailable 0 [1, 2, 3], ClickRecord,
           ClickRecord, CaptureGranted Started, RecorderStopped 0]
        (boot (browser True))) = Some [1]
   \<and> map_option recordingState
     (run [ClickRecord, CaptureGranted Started] (boot (browser True))) = Some ''recording''
   \<and> map_option pendingCaptures
     (run [ClickRecord, CaptureGranted Started] (boot (browser True))) = Some 0
   \<and> map_option pendingCaptures
     (run [ClickRecord, CaptureGranted Started,
           HostCall \<lparr>identity = 0, rendered = ''idle''\<rparr> ''startRecording'' []]
        (boot (browser True))) = Some 1
   \<and> map_option recordingState
     (run [ClickRecord, CaptureGranted Started, RecorderStopped 0] (boot (browser True))) =
       Some ''idle''
   \<and> map_option recordingState
     (run [ClickRecord, CaptureGranted Started, RecorderStopped 0,
           HostCall \<lparr>identity = 1, rendered = ''recording''\<rparr> ''stopRecording'' []]
        (boot (browser True))) = Some ''processing''"
  by (simp add: trace_defs)



end
